theory Spec2Isabelle
  imports Main "HOL-Library.Word"
begin

section \<open>Data model of the Pomodoro sketch\<close>

text \<open>
  The program is the ThingSpeak variant of the sketch (the 520-line source file): one
  \<open>loop()\<close> function over process-wide variables. \<open>unsigned long\<close> is a 32-bit
  word whose arithmetic wraps; the two \<open>int\<close> counters are mathematical integers
  (signed overflow is undefined in C++ and would need 2^31 completed phases).

  The environment is part of the machine: \<open>clock\<close> is what \<open>millis()\<close> returns,
  \<open>btn\<close> the level on the button pin, \<open>out\<close> the pin writes and ThingSpeak calls
  issued so far, oldest first. Timing assumption: statements take no time, except
  \<open>delay(ms)\<close>, which advances the clock by \<open>ms\<close>. Serial logging (\<open>logState\<close>,
  \<open>Serial.print\<close>) writes no program variable and is left out.
\<close>

type_synonym ulong = "32 word"

datatype State = IDLE | WORK | BREAK

abbreviation (input) HIGH :: bool where "HIGH \<equiv> True"
abbreviation (input) LOW :: bool where "LOW \<equiv> False"

text \<open>
  \<open>msToSeconds(ms)\<close> is the float \<open>ms / 1000.0\<close>; a staged field keeps the
  millisecond argument instead of the float.
\<close>

datatype field_value = Count int | Seconds_of_ms ulong

datatype event =
    DigitalWrite nat bool
  | SetField nat field_value
  | WriteFields

record machine =
  totalSessionTimeMs :: ulong
  totalFocusTimeMs :: ulong
  totalRestTimeMs :: ulong
  totalPomodoroCount :: int
  currentState :: State
  phaseStartTime :: ulong
  phaseDuration :: ulong
  pomodoroCount :: int
  breakAwaitingButton :: bool
  waitBlinkLast :: ulong
  waitBlinkOn :: bool
  stableState :: bool
  lastReading :: bool
  lastChange :: ulong
  lastEvent :: ulong
  clock :: ulong
  btn :: bool
  out :: "event list"

subsection \<open>Configuration constants\<close>

abbreviation (input) RGB_COMMON_ANODE :: bool where "RGB_COMMON_ANODE \<equiv> True"
abbreviation (input) RGB_R :: nat where "RGB_R \<equiv> 11"
abbreviation (input) RGB_G :: nat where "RGB_G \<equiv> 10"
abbreviation (input) RGB_B :: nat where "RGB_B \<equiv> 9"
abbreviation (input) P1 :: nat where "P1 \<equiv> 2"
abbreviation (input) P2 :: nat where "P2 \<equiv> 3"
abbreviation (input) P3 :: nat where "P3 \<equiv> 4"
abbreviation (input) P4 :: nat where "P4 \<equiv> 5"
abbreviation (input) BUZZ :: nat where "BUZZ \<equiv> 6"
abbreviation (input) BTN :: nat where "BTN \<equiv> 7"
abbreviation (input) WORK_TIME :: ulong where "WORK_TIME \<equiv> 10 * 1000"
abbreviation (input) BREAK_TIME :: ulong where "BREAK_TIME \<equiv> 10 * 1000"
abbreviation (input) WAIT_BLINK_MS :: ulong where "WAIT_BLINK_MS \<equiv> 400"
abbreviation (input) DEBOUNCE_MS :: ulong where "DEBOUNCE_MS \<equiv> 30"
abbreviation (input) COOLDOWN_MS :: ulong where "COOLDOWN_MS \<equiv> 250"

section \<open>Board primitives\<close>

definition millis :: "machine \<Rightarrow> ulong" where
  "millis m = clock m"

definition delay :: "ulong \<Rightarrow> machine \<Rightarrow> machine" where
  "delay ms m = m\<lparr>clock := clock m + ms\<rparr>"

definition digitalWrite :: "nat \<Rightarrow> bool \<Rightarrow> machine \<Rightarrow> machine" where
  "digitalWrite pin v m = m\<lparr>out := out m @ [DigitalWrite pin v]\<rparr>"

text \<open>The button is the only pin the program reads.\<close>

definition digitalRead :: "nat \<Rightarrow> machine \<Rightarrow> bool" where
  "digitalRead pin m = (if pin = BTN then btn m else LOW)"

definition ThingSpeak_setField :: "nat \<Rightarrow> field_value \<Rightarrow> machine \<Rightarrow> machine" where
  "ThingSpeak_setField k v m = m\<lparr>out := out m @ [SetField k v]\<rparr>"

definition ThingSpeak_writeFields :: "machine \<Rightarrow> machine" where
  "ThingSpeak_writeFields m = m\<lparr>out := out m @ [WriteFields]\<rparr>"

section \<open>Utilities of the sketch\<close>

definition msToSeconds :: "ulong \<Rightarrow> field_value" where
  "msToSeconds ms = Seconds_of_ms ms"

definition setRGB :: "bool \<Rightarrow> bool \<Rightarrow> bool \<Rightarrow> machine \<Rightarrow> machine" where
  "setRGB r g b m =
    (if RGB_COMMON_ANODE then
       (let m = digitalWrite RGB_R (if r then LOW else HIGH) m;
            m = digitalWrite RGB_G (if g then LOW else HIGH) m;
            m = digitalWrite RGB_B (if b then LOW else HIGH) m
        in m)
     else
       (let m = digitalWrite RGB_R (if r then HIGH else LOW) m;
            m = digitalWrite RGB_G (if g then HIGH else LOW) m;
            m = digitalWrite RGB_B (if b then HIGH else LOW) m
        in m))"

definition beep :: "ulong \<Rightarrow> machine \<Rightarrow> machine" where
  "beep ms m =
    (let m = digitalWrite BUZZ HIGH m;
         m = delay ms m;
         m = digitalWrite BUZZ LOW m
     in m)"

text \<open>
  \<open>buttonPressed\<close>: the four function-level statics are fields of the machine. The
  result is the returned flag and the machine with the statics updated.
\<close>

definition buttonPressed :: "machine \<Rightarrow> bool \<times> machine" where
  "buttonPressed m =
    (let reading = digitalRead BTN m;
         m = (if reading \<noteq> lastReading m
              then m\<lparr>lastReading := reading, lastChange := millis m\<rparr>
              else m)
     in if millis m - lastChange m \<ge> DEBOUNCE_MS \<and> reading \<noteq> stableState m then
          (let m = m\<lparr>stableState := reading\<rparr> in
           if stableState m = LOW then
             (let now = millis m in
              if now - lastEvent m \<ge> COOLDOWN_MS
              then (True, m\<lparr>lastEvent := now\<rparr>)
              else (False, m))
           else (False, m))
        else (False, m))"

definition updateProgressLEDs :: "machine \<Rightarrow> machine" where
  "updateProgressLEDs m =
    (let m = digitalWrite P1 (if pomodoroCount m \<ge> 1 then HIGH else LOW) m;
         m = digitalWrite P2 (if pomodoroCount m \<ge> 2 then HIGH else LOW) m;
         m = digitalWrite P3 (if pomodoroCount m \<ge> 3 then HIGH else LOW) m;
         m = digitalWrite P4 (if pomodoroCount m \<ge> 4 then HIGH else LOW) m
     in m)"

definition setTotalPomodoroCount :: "int \<Rightarrow> machine \<Rightarrow> machine" where
  "setTotalPomodoroCount totalPomodoros m = ThingSpeak_setField 1 (Count totalPomodoros) m"

definition setTotalWorkingTime :: "ulong \<Rightarrow> machine \<Rightarrow> machine" where
  "setTotalWorkingTime totalTimeMs m = ThingSpeak_setField 2 (msToSeconds totalTimeMs) m"

definition setTotalFocusTime :: "ulong \<Rightarrow> machine \<Rightarrow> machine" where
  "setTotalFocusTime focusTimeMs m = ThingSpeak_setField 3 (msToSeconds focusTimeMs) m"

definition setTotalRestingTime :: "ulong \<Rightarrow> machine \<Rightarrow> machine" where
  "setTotalRestingTime restingTimeMs m = ThingSpeak_setField 4 (msToSeconds restingTimeMs) m"

definition sendAllMetrics :: "machine \<Rightarrow> machine" where
  "sendAllMetrics m = ThingSpeak_writeFields m"

section \<open>State entry functions\<close>

definition enterIdle :: "machine \<Rightarrow> machine" where
  "enterIdle m =
    (let m = m\<lparr>currentState := IDLE\<rparr>;
         m = setRGB False False False m;
         m = m\<lparr>breakAwaitingButton := False\<rparr>
     in m)"

definition enterWork :: "machine \<Rightarrow> machine" where
  "enterWork m =
    (let m = m\<lparr>currentState := WORK\<rparr>;
         m = m\<lparr>phaseStartTime := millis m\<rparr>;
         m = m\<lparr>phaseDuration := WORK_TIME\<rparr>;
         m = m\<lparr>pomodoroCount := pomodoroCount m + 1\<rparr>;
         m = (if pomodoroCount m > 4 then m\<lparr>pomodoroCount := 4\<rparr> else m);
         m = updateProgressLEDs m;
         m = setRGB True False False m;
         m = m\<lparr>breakAwaitingButton := False\<rparr>
     in m)"

definition enterBreak :: "machine \<Rightarrow> machine" where
  "enterBreak m =
    (let m = m\<lparr>currentState := BREAK\<rparr>;
         m = m\<lparr>phaseStartTime := millis m\<rparr>;
         m = m\<lparr>phaseDuration := BREAK_TIME\<rparr>;
         m = setRGB False False True m;
         m = m\<lparr>breakAwaitingButton := False\<rparr>;
         m = m\<lparr>waitBlinkLast := millis m\<rparr>;
         m = m\<lparr>waitBlinkOn := True\<rparr>
     in m)"

section \<open>The control loop\<close>

definition loop :: "machine \<Rightarrow> machine" where
  "loop m =
    (let now = millis m;
         (pressed, m) = buttonPressed m
     in
     if pressed then
       (if currentState m = IDLE then
          (let m = m\<lparr>pomodoroCount := 0\<rparr>;
               m = updateProgressLEDs m
           in enterWork m)
        else if currentState m = BREAK \<and> breakAwaitingButton m then
          (let breakDurationMs = millis m - phaseStartTime m;
               m = m\<lparr>totalRestTimeMs := totalRestTimeMs m + breakDurationMs\<rparr>;
               m = (if pomodoroCount m \<ge> 4
                    then updateProgressLEDs (m\<lparr>pomodoroCount := 0\<rparr>)
                    else m)
           in enterWork m)
        else enterIdle m)
     else if currentState m = WORK then
       (if millis m - phaseStartTime m \<ge> phaseDuration m then
          (let m = beep 200 m;
               m = m\<lparr>totalPomodoroCount := totalPomodoroCount m + 1\<rparr>;
               workDurationMs = millis m - phaseStartTime m;
               m = m\<lparr>totalFocusTimeMs := totalFocusTimeMs m + workDurationMs\<rparr>;
               m = setTotalPomodoroCount (totalPomodoroCount m) m;
               m = setTotalFocusTime (totalFocusTimeMs m) m;
               m = setTotalRestingTime (totalRestTimeMs m) m;
               m = setTotalWorkingTime (totalSessionTimeMs m) m;
               m = sendAllMetrics m;
               m = (if pomodoroCount m > 4 then m\<lparr>pomodoroCount := 4\<rparr> else m);
               m = updateProgressLEDs m
           in enterBreak m)
        else m)
     else if currentState m = BREAK then
       (let m = (if \<not> breakAwaitingButton m \<and> millis m - phaseStartTime m \<ge> phaseDuration m then
                   (let m = beep 200 m;
                        m = m\<lparr>totalSessionTimeMs := millis m\<rparr>;
                        m = setTotalPomodoroCount (totalPomodoroCount m) m;
                        m = setTotalFocusTime (totalFocusTimeMs m) m;
                        m = setTotalRestingTime (totalRestTimeMs m) m;
                        m = setTotalWorkingTime (totalSessionTimeMs m) m;
                        m = sendAllMetrics m
                    in m\<lparr>breakAwaitingButton := True\<rparr>)
                 else m)
        in
        if breakAwaitingButton m then
          (if now - waitBlinkLast m \<ge> WAIT_BLINK_MS then
             (let m = m\<lparr>waitBlinkLast := now\<rparr>;
                  m = m\<lparr>waitBlinkOn := (\<not> waitBlinkOn m)\<rparr>
              in if waitBlinkOn m then setRGB False False True m
                 else setRGB False False False m)
           else m)
        else m)
     else m)"

subsection \<open>The earlier sketch without telemetry\<close>

text \<open>
  \<open>pomodoro_pro_sketch.ino\<close> is the same machine without the metrics: its
  \<open>buttonPressed\<close>, \<open>setRGB\<close>, \<open>beep\<close> and \<open>enterIdle\<close> are the functions above,
  word for word. Its progress LEDs are wired in the opposite pin order, its phases are
  shorter, \<open>enterWork\<close> does not touch the progress counter and the counter is
  incremented when a work phase completes.
\<close>

abbreviation (input) P1_sketch :: nat where "P1_sketch \<equiv> 5"
abbreviation (input) P2_sketch :: nat where "P2_sketch \<equiv> 4"
abbreviation (input) P3_sketch :: nat where "P3_sketch \<equiv> 3"
abbreviation (input) P4_sketch :: nat where "P4_sketch \<equiv> 2"
abbreviation (input) WORK_TIME_sketch :: ulong where "WORK_TIME_sketch \<equiv> 5 * 1000"
abbreviation (input) BREAK_TIME_sketch :: ulong where "BREAK_TIME_sketch \<equiv> 3 * 1000"

definition updateProgressLEDs_sketch :: "machine \<Rightarrow> machine" where
  "updateProgressLEDs_sketch m =
    (let m = digitalWrite P1_sketch (if pomodoroCount m \<ge> 1 then HIGH else LOW) m;
         m = digitalWrite P2_sketch (if pomodoroCount m \<ge> 2 then HIGH else LOW) m;
         m = digitalWrite P3_sketch (if pomodoroCount m \<ge> 3 then HIGH else LOW) m;
         m = digitalWrite P4_sketch (if pomodoroCount m \<ge> 4 then HIGH else LOW) m
     in m)"

definition enterWork_sketch :: "machine \<Rightarrow> machine" where
  "enterWork_sketch m =
    (let m = m\<lparr>currentState := WORK\<rparr>;
         m = m\<lparr>phaseStartTime := millis m\<rparr>;
         m = m\<lparr>phaseDuration := WORK_TIME_sketch\<rparr>;
         m = setRGB True False False m;
         m = m\<lparr>breakAwaitingButton := False\<rparr>
     in m)"

definition enterBreak_sketch :: "machine \<Rightarrow> machine" where
  "enterBreak_sketch m =
    (let m = m\<lparr>currentState := BREAK\<rparr>;
         m = m\<lparr>phaseStartTime := millis m\<rparr>;
         m = m\<lparr>phaseDuration := BREAK_TIME_sketch\<rparr>;
         m = setRGB False False True m;
         m = m\<lparr>breakAwaitingButton := False\<rparr>;
         m = m\<lparr>waitBlinkLast := millis m\<rparr>;
         m = m\<lparr>waitBlinkOn := True\<rparr>
     in m)"

definition loop_sketch :: "machine \<Rightarrow> machine" where
  "loop_sketch m =
    (let now = millis m;
         (pressed, m) = buttonPressed m
     in
     if pressed then
       (if currentState m = IDLE then
          (let m = m\<lparr>pomodoroCount := 0\<rparr>;
               m = updateProgressLEDs_sketch m
           in enterWork_sketch m)
        else if currentState m = BREAK \<and> breakAwaitingButton m then
          (let m = (if pomodoroCount m \<ge> 4
                    then updateProgressLEDs_sketch (m\<lparr>pomodoroCount := 0\<rparr>)
                    else m)
           in enterWork_sketch m)
        else enterIdle m)
     else if currentState m = WORK then
       (if millis m - phaseStartTime m \<ge> phaseDuration m then
          (let m = beep 200 m;
               m = m\<lparr>pomodoroCount := pomodoroCount m + 1\<rparr>;
               m = (if pomodoroCount m > 4 then m\<lparr>pomodoroCount := 4\<rparr> else m);
               m = updateProgressLEDs_sketch m
           in enterBreak_sketch m)
        else m)
     else if currentState m = BREAK then
       (let m = (if \<not> breakAwaitingButton m \<and> millis m - phaseStartTime m \<ge> phaseDuration m then
                   (let m = beep 200 m
                    in m\<lparr>breakAwaitingButton := True\<rparr>)
                 else m)
        in
        if breakAwaitingButton m then
          (if now - waitBlinkLast m \<ge> WAIT_BLINK_MS then
             (let m = m\<lparr>waitBlinkLast := now\<rparr>;
                  m = m\<lparr>waitBlinkOn := (\<not> waitBlinkOn m)\<rparr>
              in if waitBlinkOn m then setRGB False False True m
                 else setRGB False False False m)
           else m)
        else m)
     else m)"

definition emitted_sketch :: "machine \<Rightarrow> event list" where
  "emitted_sketch m = drop (length (out m)) (out (loop_sketch m))"

text \<open>
  Power-on values of the variables (their C++ initialisers) at boot time \<open>t0\<close>, and the
  part of the boot routine that touches them (\<open>setup_board\<close>). Network start-up,
  \<open>pinMode\<close> and the serial port are not modelled; \<open>t0\<close> is the clock when the boot
  routine reaches its last lines.
\<close>

definition power_on :: "ulong \<Rightarrow> machine" where
  "power_on t0 =
    \<lparr>totalSessionTimeMs = 0, totalFocusTimeMs = 0, totalRestTimeMs = 0,
     totalPomodoroCount = 0, currentState = IDLE, phaseStartTime = 0, phaseDuration = 0,
     pomodoroCount = 0, breakAwaitingButton = False, waitBlinkLast = 0,
     waitBlinkOn = False, stableState = HIGH, lastReading = HIGH, lastChange = 0,
     lastEvent = 0, clock = t0, btn = HIGH, out = []\<rparr>"

definition setup_board :: "machine \<Rightarrow> machine" where
  "setup_board m =
    (let m = m\<lparr>pomodoroCount := 0\<rparr>;
         m = updateProgressLEDs m
     in enterIdle m)"

text \<open>
  One tick: the environment moves the clock to \<open>t\<close> and the button pin to \<open>lvl\<close>,
  then \<open>loop()\<close> runs once.
\<close>

definition arrive :: "ulong \<Rightarrow> bool \<Rightarrow> machine \<Rightarrow> machine" where
  "arrive t lvl m = m\<lparr>clock := t, btn := lvl\<rparr>"

definition tick :: "ulong \<Rightarrow> bool \<Rightarrow> machine \<Rightarrow> machine" where
  "tick t lvl m = loop (arrive t lvl m)"

text \<open>The outputs issued by one run of \<open>loop()\<close>.\<close>

definition emitted :: "machine \<Rightarrow> event list" where
  "emitted m = drop (length (out m)) (out (loop m))"

section \<open>Runs and reachable machines\<close>

text \<open>The ThingSpeak calls among a list of outputs, pin writes dropped.\<close>

fun telemetry :: "event list \<Rightarrow> event list" where
  "telemetry [] = []"
| "telemetry (DigitalWrite pin v # es) = telemetry es"
| "telemetry (e # es) = e # telemetry es"

text \<open>A run of ticks, first input first.\<close>

fun run :: "(ulong \<times> bool) list \<Rightarrow> machine \<Rightarrow> machine" where
  "run [] m = m"
| "run ((t, lvl) # is) m = run is (tick t lvl m)"

text \<open>The outputs issued by a run of ticks.\<close>

definition emitted_run :: "(ulong \<times> bool) list \<Rightarrow> machine \<Rightarrow> event list" where
  "emitted_run is m = drop (length (out m)) (out (run is m))"

text \<open>
  The machines the sketch can be in after a tick. The clock source is monotone and does
  not wrap (wrap-around after 2^32 ms is a documented limitation of the program), so a
  tick happens at a time \<open>t\<close> not before the end of the previous tick, with room for
  the 200 ms of a \<open>beep()\<close> (\<open>t \<le> t + 200\<close> on words says that \<open>t + 200\<close> does
  not wrap).
\<close>

inductive reach :: "machine \<Rightarrow> bool" where
  boot: "reach (setup_board (power_on t0))"
| step: "reach m \<Longrightarrow> clock m \<le> t \<Longrightarrow> t \<le> t + 200 \<Longrightarrow> reach (tick t lvl m)"

text \<open>
  The edge detector alone, polled at true times \<open>t\<close> (milliseconds since boot, not
  wrapped): \<open>millis()\<close> returns \<open>t mod 2^32\<close>. \<open>presses\<close> lists the times of the
  polls that reported a press, \<open>polled\<close> is the machine after the polls.
\<close>

fun presses :: "machine \<Rightarrow> (bool \<times> nat) list \<Rightarrow> nat list" where
  "presses m [] = []"
| "presses m ((lvl, t) # ps) =
    (let r = buttonPressed (m\<lparr>clock := of_nat t, btn := lvl\<rparr>)
     in (if fst r then [t] else []) @ presses (snd r) ps)"

fun polled :: "machine \<Rightarrow> (bool \<times> nat) list \<Rightarrow> machine" where
  "polled m [] = m"
| "polled m ((lvl, t) # ps) = polled (snd (buttonPressed (m\<lparr>clock := of_nat t, btn := lvl\<rparr>))) ps"

text \<open>A list of tick inputs that respects the clock assumption of \<open>reach\<close>.\<close>

fun admissible :: "(ulong \<times> bool) list \<Rightarrow> machine \<Rightarrow> bool" where
  "admissible [] m = True"
| "admissible ((t, lvl) # is) m =
    (clock m \<le> t \<and> t \<le> t + 200 \<and> admissible is (tick t lvl m))"

section \<open>A concrete session\<close>

text \<open>
  Boot at 300 ms. The button goes down at 300 ms and is accepted at 330 ms (Idle to
  Work); it is released at 400 ms. The work phase ends at 10330 ms (Work to Break, the
  beep ends at 10530 ms); the break timer expires at 20530 ms; the button is pressed
  again and accepted at 21030 ms (Break to Work). Three more rounds follow. The
  \<open>i_\<close> machines are the inputs of single runs of \<open>loop()\<close>.
\<close>

definition s_boot :: machine where "s_boot = setup_board (power_on 300)"
definition s_down :: machine where "s_down = tick 300 LOW s_boot"
definition s_work :: machine where "s_work = tick 330 LOW s_down"
definition s_released :: machine where "s_released = run [(400, HIGH), (430, HIGH)] s_work"
definition s_break :: machine where "s_break = tick 10330 HIGH s_released"
definition s_await :: machine where "s_await = tick 20530 HIGH s_break"
definition s_down2 :: machine where "s_down2 = tick 21000 LOW s_await"
definition s_work2 :: machine where "s_work2 = tick 21030 LOW s_down2"

definition i_press_idle :: machine where "i_press_idle = arrive 330 LOW s_down"
definition i_work_expired :: machine where "i_work_expired = arrive 10330 HIGH s_released"
definition i_press_work :: machine where
  "i_press_work = arrive 1030 LOW (tick 1000 LOW s_released)"
definition i_press_break_early :: machine where
  "i_press_break_early = arrive 11030 LOW (tick 11000 LOW s_break)"
definition i_break_expired :: machine where "i_break_expired = arrive 20530 HIGH s_break"
definition i_press_at_expiry :: machine where
  "i_press_at_expiry = arrive 10330 LOW (tick 10300 LOW s_released)"
definition i_press_resume :: machine where "i_press_resume = arrive 21030 LOW s_down2"

text \<open>
  For the edge detector: a quick double press (down 300 to 340 ms, down again from
  380 ms), the second press then held until 5000 ms.
\<close>

definition double_press :: "(bool \<times> nat) list" where
  "double_press = [(LOW, 300), (LOW, 330), (HIGH, 340), (HIGH, 370)]"

definition held_low :: "(bool \<times> nat) list" where
  "held_low = [(LOW, 380), (LOW, 410), (LOW, 500), (LOW, 1000), (LOW, 5000)]"

text \<open>
  A triple press: the second press is dropped by the cooldown at 410 ms, a third one
  goes down at 570 ms.
\<close>

definition triple_press :: "(bool \<times> nat) list" where
  "triple_press =
    [(LOW, 300), (LOW, 330), (HIGH, 340), (HIGH, 370), (LOW, 380), (LOW, 410),
     (HIGH, 420), (HIGH, 450), (LOW, 570)]"

definition round_inputs :: "(ulong \<times> bool) list" where
  "round_inputs =
    [(21100, HIGH), (21130, HIGH), (31030, HIGH), (41230, HIGH), (41500, LOW), (41530, LOW),
     (41600, HIGH), (41630, HIGH), (51530, HIGH), (61730, HIGH), (62000, LOW), (62030, LOW),
     (62100, HIGH), (62130, HIGH), (72030, HIGH), (82230, HIGH), (82500, LOW)]"

definition i_press_resume_at_cap :: machine where
  "i_press_resume_at_cap = arrive 82530 LOW (run round_inputs s_work2)"

section \<open>What the functions do, as record updates\<close>

lemma buttonPressed_frame [simp]:
  "totalSessionTimeMs (snd (buttonPressed m)) = totalSessionTimeMs m"
  "totalFocusTimeMs (snd (buttonPressed m)) = totalFocusTimeMs m"
  "totalRestTimeMs (snd (buttonPressed m)) = totalRestTimeMs m"
  "totalPomodoroCount (snd (buttonPressed m)) = totalPomodoroCount m"
  "currentState (snd (buttonPressed m)) = currentState m"
  "phaseStartTime (snd (buttonPressed m)) = phaseStartTime m"
  "phaseDuration (snd (buttonPressed m)) = phaseDuration m"
  "pomodoroCount (snd (buttonPressed m)) = pomodoroCount m"
  "breakAwaitingButton (snd (buttonPressed m)) = breakAwaitingButton m"
  "waitBlinkLast (snd (buttonPressed m)) = waitBlinkLast m"
  "waitBlinkOn (snd (buttonPressed m)) = waitBlinkOn m"
  "clock (snd (buttonPressed m)) = clock m"
  "btn (snd (buttonPressed m)) = btn m"
  "out (snd (buttonPressed m)) = out m"
  by (simp_all add: buttonPressed_def Let_def)

lemma setRGB_eq:
  "setRGB r g b m =
     m\<lparr>out := out m @ [DigitalWrite RGB_R (\<not> r), DigitalWrite RGB_G (\<not> g), DigitalWrite RGB_B (\<not> b)]\<rparr>"
  by (simp add: setRGB_def digitalWrite_def)

lemma beep_eq:
  "beep ms m = m\<lparr>clock := clock m + ms, out := out m @ [DigitalWrite BUZZ HIGH, DigitalWrite BUZZ LOW]\<rparr>"
  by (simp add: beep_def digitalWrite_def delay_def)

lemma updateProgressLEDs_eq:
  "updateProgressLEDs m =
     m\<lparr>out := out m @ [DigitalWrite P1 (1 \<le> pomodoroCount m), DigitalWrite P2 (2 \<le> pomodoroCount m),
                         DigitalWrite P3 (3 \<le> pomodoroCount m), DigitalWrite P4 (4 \<le> pomodoroCount m)]\<rparr>"
  by (simp add: updateProgressLEDs_def digitalWrite_def)

lemma stage_eq:
  "setTotalPomodoroCount n m = m\<lparr>out := out m @ [SetField 1 (Count n)]\<rparr>"
  "setTotalWorkingTime w m = m\<lparr>out := out m @ [SetField 2 (Seconds_of_ms w)]\<rparr>"
  "setTotalFocusTime f m = m\<lparr>out := out m @ [SetField 3 (Seconds_of_ms f)]\<rparr>"
  "setTotalRestingTime r m = m\<lparr>out := out m @ [SetField 4 (Seconds_of_ms r)]\<rparr>"
  "sendAllMetrics m = m\<lparr>out := out m @ [WriteFields]\<rparr>"
  by (simp_all add: setTotalPomodoroCount_def setTotalWorkingTime_def setTotalFocusTime_def
      setTotalRestingTime_def sendAllMetrics_def ThingSpeak_setField_def
      ThingSpeak_writeFields_def msToSeconds_def)

lemma enterIdle_eq:
  "enterIdle m =
     m\<lparr>currentState := IDLE, breakAwaitingButton := False,
       out := out m @ [DigitalWrite RGB_R HIGH, DigitalWrite RGB_G HIGH, DigitalWrite RGB_B HIGH]\<rparr>"
  by (simp add: enterIdle_def setRGB_eq)

lemma enterWork_eq:
  "enterWork m =
     m\<lparr>currentState := WORK, phaseStartTime := clock m, phaseDuration := WORK_TIME,
       pomodoroCount := (if pomodoroCount m + 1 > 4 then 4 else pomodoroCount m + 1),
       breakAwaitingButton := False,
       out := out m @
         [DigitalWrite P1 (0 \<le> pomodoroCount m), DigitalWrite P2 (1 \<le> pomodoroCount m),
          DigitalWrite P3 (2 \<le> pomodoroCount m), DigitalWrite P4 (3 \<le> pomodoroCount m),
          DigitalWrite RGB_R LOW, DigitalWrite RGB_G HIGH, DigitalWrite RGB_B HIGH]\<rparr>"
  by (simp add: enterWork_def Let_def setRGB_eq updateProgressLEDs_eq millis_def)

lemma enterBreak_eq:
  "enterBreak m =
     m\<lparr>currentState := BREAK, phaseStartTime := clock m, phaseDuration := BREAK_TIME,
       breakAwaitingButton := False, waitBlinkLast := clock m, waitBlinkOn := True,
       out := out m @ [DigitalWrite RGB_R HIGH, DigitalWrite RGB_G HIGH, DigitalWrite RGB_B LOW]\<rparr>"
  by (simp add: enterBreak_def Let_def setRGB_eq millis_def)

lemmas fn_eqs = setRGB_eq beep_eq updateProgressLEDs_eq stage_eq enterIdle_eq enterWork_eq
  enterBreak_eq millis_def

section \<open>The paths through the loop\<close>


lemma loop_press_idle:
  "fst (buttonPressed m) \<Longrightarrow> currentState m = IDLE \<Longrightarrow>
   loop m = (snd (buttonPressed m))
     \<lparr>currentState := WORK, phaseStartTime := clock m, phaseDuration := WORK_TIME,
      pomodoroCount := 1, breakAwaitingButton := False,
      out := out m @
        [DigitalWrite P1 LOW, DigitalWrite P2 LOW, DigitalWrite P3 LOW, DigitalWrite P4 LOW,
         DigitalWrite P1 HIGH, DigitalWrite P2 LOW, DigitalWrite P3 LOW, DigitalWrite P4 LOW,
         DigitalWrite RGB_R LOW, DigitalWrite RGB_G HIGH, DigitalWrite RGB_B HIGH]\<rparr>"
  by (simp add: loop_def case_prod_beta fn_eqs)

lemma loop_press_resume:
  "fst (buttonPressed m) \<Longrightarrow> currentState m = BREAK \<Longrightarrow> breakAwaitingButton m \<Longrightarrow>
   loop m = (snd (buttonPressed m))
     \<lparr>totalRestTimeMs := totalRestTimeMs m + (clock m - phaseStartTime m),
      currentState := WORK, phaseStartTime := clock m, phaseDuration := WORK_TIME,
      pomodoroCount := (if 4 \<le> pomodoroCount m then 1 else pomodoroCount m + 1),
      breakAwaitingButton := False,
      out := out m @
        (if 4 \<le> pomodoroCount m
         then [DigitalWrite P1 LOW, DigitalWrite P2 LOW, DigitalWrite P3 LOW, DigitalWrite P4 LOW,
               DigitalWrite P1 HIGH, DigitalWrite P2 LOW, DigitalWrite P3 LOW, DigitalWrite P4 LOW]
         else [DigitalWrite P1 (0 \<le> pomodoroCount m), DigitalWrite P2 (1 \<le> pomodoroCount m),
               DigitalWrite P3 (2 \<le> pomodoroCount m), DigitalWrite P4 (3 \<le> pomodoroCount m)]) @
        [DigitalWrite RGB_R LOW, DigitalWrite RGB_G HIGH, DigitalWrite RGB_B HIGH]\<rparr>"
  by (simp add: loop_def case_prod_beta fn_eqs)

lemma loop_press_other:
  "fst (buttonPressed m) \<Longrightarrow>
   currentState m = WORK \<or> (currentState m = BREAK \<and> \<not> breakAwaitingButton m) \<Longrightarrow>
   loop m = (snd (buttonPressed m))
     \<lparr>currentState := IDLE, breakAwaitingButton := False,
      out := out m @ [DigitalWrite RGB_R HIGH, DigitalWrite RGB_G HIGH, DigitalWrite RGB_B HIGH]\<rparr>"
  by (auto simp add: loop_def case_prod_beta fn_eqs)

lemma loop_work_expired:
  "\<not> fst (buttonPressed m) \<Longrightarrow> currentState m = WORK \<Longrightarrow>
   phaseDuration m \<le> clock m - phaseStartTime m \<Longrightarrow>
   loop m = (snd (buttonPressed m))
     \<lparr>totalPomodoroCount := totalPomodoroCount m + 1,
      totalFocusTimeMs := totalFocusTimeMs m + (clock m + 200 - phaseStartTime m),
      pomodoroCount := (if pomodoroCount m > 4 then 4 else pomodoroCount m),
      currentState := BREAK, phaseStartTime := clock m + 200, phaseDuration := BREAK_TIME,
      breakAwaitingButton := False, waitBlinkLast := clock m + 200, waitBlinkOn := True,
      clock := clock m + 200,
      out := out m @
       [DigitalWrite BUZZ HIGH, DigitalWrite BUZZ LOW,
        SetField 1 (Count (totalPomodoroCount m + 1)),
        SetField 3 (Seconds_of_ms (totalFocusTimeMs m + (clock m + 200 - phaseStartTime m))),
        SetField 4 (Seconds_of_ms (totalRestTimeMs m)),
        SetField 2 (Seconds_of_ms (totalSessionTimeMs m)),
        WriteFields,
        DigitalWrite P1 (1 \<le> pomodoroCount m), DigitalWrite P2 (2 \<le> pomodoroCount m),
        DigitalWrite P3 (3 \<le> pomodoroCount m), DigitalWrite P4 (4 \<le> pomodoroCount m),
        DigitalWrite RGB_R HIGH, DigitalWrite RGB_G HIGH, DigitalWrite RGB_B LOW]\<rparr>"
  apply (simp add: loop_def case_prod_beta fn_eqs)
  apply (subst Let_def, simp add: fn_eqs)+
  done

lemma loop_quiet:
  "\<not> fst (buttonPressed m) \<Longrightarrow>
   currentState m = IDLE \<or>
   (currentState m = WORK \<and> \<not> phaseDuration m \<le> clock m - phaseStartTime m) \<or>
   (currentState m = BREAK \<and> \<not> breakAwaitingButton m \<and>
      \<not> phaseDuration m \<le> clock m - phaseStartTime m) \<Longrightarrow>
   loop m = snd (buttonPressed m)"
  by (auto simp add: loop_def case_prod_beta fn_eqs)

lemma loop_break_expired:
  "\<not> fst (buttonPressed m) \<Longrightarrow> currentState m = BREAK \<Longrightarrow> \<not> breakAwaitingButton m \<Longrightarrow>
   phaseDuration m \<le> clock m - phaseStartTime m \<Longrightarrow>
   loop m = (snd (buttonPressed m))
     \<lparr>totalSessionTimeMs := clock m + 200, breakAwaitingButton := True,
      waitBlinkLast := (if WAIT_BLINK_MS \<le> clock m - waitBlinkLast m then clock m else waitBlinkLast m),
      waitBlinkOn := (if WAIT_BLINK_MS \<le> clock m - waitBlinkLast m then \<not> waitBlinkOn m else waitBlinkOn m),
      clock := clock m + 200,
      out := out m @
       [DigitalWrite BUZZ HIGH, DigitalWrite BUZZ LOW,
        SetField 1 (Count (totalPomodoroCount m)),
        SetField 3 (Seconds_of_ms (totalFocusTimeMs m)),
        SetField 4 (Seconds_of_ms (totalRestTimeMs m)),
        SetField 2 (Seconds_of_ms (clock m + 200)),
        WriteFields] @
       (if WAIT_BLINK_MS \<le> clock m - waitBlinkLast m
        then [DigitalWrite RGB_R HIGH, DigitalWrite RGB_G HIGH, DigitalWrite RGB_B (waitBlinkOn m)]
        else [])\<rparr>"
  apply (simp add: loop_def case_prod_beta fn_eqs)
  apply (subst Let_def, simp add: fn_eqs)+
  apply (simp add: Let_def fn_eqs)
  done

lemma loop_break_waiting:
  "\<not> fst (buttonPressed m) \<Longrightarrow> currentState m = BREAK \<Longrightarrow> breakAwaitingButton m \<Longrightarrow>
   loop m = (snd (buttonPressed m))
     \<lparr>waitBlinkLast := (if WAIT_BLINK_MS \<le> clock m - waitBlinkLast m then clock m else waitBlinkLast m),
      waitBlinkOn := (if WAIT_BLINK_MS \<le> clock m - waitBlinkLast m then \<not> waitBlinkOn m else waitBlinkOn m),
      out := out m @
       (if WAIT_BLINK_MS \<le> clock m - waitBlinkLast m
        then [DigitalWrite RGB_R HIGH, DigitalWrite RGB_G HIGH, DigitalWrite RGB_B (waitBlinkOn m)]
        else [])\<rparr>"
  apply (simp add: loop_def case_prod_beta fn_eqs)
  apply (subst Let_def, simp add: fn_eqs)+
  done


lemmas loop_paths = loop_press_idle loop_press_resume loop_press_other loop_work_expired
  loop_quiet loop_break_expired loop_break_waiting


subsection \<open>The earlier sketch\<close>

lemma updateProgressLEDs_sketch_eq:
  "updateProgressLEDs_sketch m =
     m\<lparr>out := out m @
       [DigitalWrite P1_sketch (1 \<le> pomodoroCount m), DigitalWrite P2_sketch (2 \<le> pomodoroCount m),
        DigitalWrite P3_sketch (3 \<le> pomodoroCount m), DigitalWrite P4_sketch (4 \<le> pomodoroCount m)]\<rparr>"
  by (simp add: updateProgressLEDs_sketch_def digitalWrite_def)

lemma enterWork_sketch_eq:
  "enterWork_sketch m =
     m\<lparr>currentState := WORK, phaseStartTime := clock m, phaseDuration := WORK_TIME_sketch,
       breakAwaitingButton := False,
       out := out m @ [DigitalWrite RGB_R LOW, DigitalWrite RGB_G HIGH, DigitalWrite RGB_B HIGH]\<rparr>"
  by (simp add: enterWork_sketch_def Let_def setRGB_eq millis_def)

lemma enterBreak_sketch_eq:
  "enterBreak_sketch m =
     m\<lparr>currentState := BREAK, phaseStartTime := clock m, phaseDuration := BREAK_TIME_sketch,
       breakAwaitingButton := False, waitBlinkLast := clock m, waitBlinkOn := True,
       out := out m @ [DigitalWrite RGB_R HIGH, DigitalWrite RGB_G HIGH, DigitalWrite RGB_B LOW]\<rparr>"
  by (simp add: enterBreak_sketch_def Let_def setRGB_eq millis_def)

lemmas sketch_eqs = updateProgressLEDs_sketch_eq enterWork_sketch_eq enterBreak_sketch_eq

lemma loop_sketch_press:
  "fst (buttonPressed m) \<Longrightarrow>
   clock (loop_sketch m) = clock m \<and>
   DigitalWrite BUZZ HIGH \<notin> set (emitted_sketch m) \<and>
   waitBlinkLast (loop_sketch m) = waitBlinkLast m \<and>
   waitBlinkOn (loop_sketch m) = waitBlinkOn m \<and>
   \<not> breakAwaitingButton (loop_sketch m) \<and>
   currentState (loop_sketch m) \<noteq> BREAK"
  by (simp add: loop_sketch_def emitted_sketch_def case_prod_beta fn_eqs sketch_eqs)

lemma loop_sketch_no_press:
  "\<not> fst (buttonPressed m) \<Longrightarrow>
   currentState (loop_sketch m) = currentState m \<or>
   currentState m = WORK \<and> currentState (loop_sketch m) = BREAK"
  apply (cases "currentState m")
    apply (simp_all add: loop_sketch_def case_prod_beta fn_eqs sketch_eqs)
   apply (subst Let_def, simp add: fn_eqs sketch_eqs)+
  done

lemma loop_sketch_press_idle:
  "fst (buttonPressed m) \<Longrightarrow> currentState m = IDLE \<Longrightarrow>
   currentState (loop_sketch m) = WORK \<and> pomodoroCount (loop_sketch m) = 0"
  by (simp add: loop_sketch_def case_prod_beta fn_eqs sketch_eqs)

lemma loop_sketch_press_resume_at_cap:
  "fst (buttonPressed m) \<Longrightarrow> currentState m = BREAK \<Longrightarrow> breakAwaitingButton m \<Longrightarrow>
   4 \<le> pomodoroCount m \<Longrightarrow>
   currentState (loop_sketch m) = WORK \<and> pomodoroCount (loop_sketch m) = 0"
  by (simp add: loop_sketch_def case_prod_beta fn_eqs sketch_eqs)

section \<open>Press events\<close>

text \<open>
  Claim C1. A tick that consumes a press while the state is IDLE makes the state WORK in
  that same tick, resets the display progress counter to 0 without counting a completed
  cycle, and starts the phase timer afresh with the work duration. On the press accepted
  at 330 ms in the concrete session the state, the tally and the timer are as claimed, but
  the progress counter ends at 1 and LED \<open>P1\<close> is lit although no work phase has
  completed: \<open>enterWork\<close> increments the counter right after the reset. The
  documentation of \<open>updateProgressLEDs\<close> in the same file (the LEDs show the pomodoros
  completed within the current block) and the earlier sketch, which ends at 0 on the same
  input, say otherwise.
\<close>

theorem press_in_idle_progress_defect:
  "fst (buttonPressed i_press_idle) \<and> currentState i_press_idle = IDLE \<and>
   clock i_press_idle = 330 \<and>
   currentState (loop i_press_idle) = WORK \<and>
   totalPomodoroCount (loop i_press_idle) = totalPomodoroCount i_press_idle \<and>
   phaseStartTime (loop i_press_idle) = 330 \<and>
   phaseDuration (loop i_press_idle) = WORK_TIME \<and>
   pomodoroCount (loop i_press_idle) = 1 \<and>
   emitted i_press_idle =
     [DigitalWrite P1 LOW, DigitalWrite P2 LOW, DigitalWrite P3 LOW, DigitalWrite P4 LOW,
      DigitalWrite P1 HIGH, DigitalWrite P2 LOW, DigitalWrite P3 LOW, DigitalWrite P4 LOW,
      DigitalWrite RGB_R LOW, DigitalWrite RGB_G HIGH, DigitalWrite RGB_B HIGH] \<and>
   currentState (loop_sketch i_press_idle) = WORK \<and>
   pomodoroCount (loop_sketch i_press_idle) = 0"
  by code_simp

text \<open>
  The same on every input: what a press consumed in IDLE does in the ThingSpeak variant.
\<close>

lemma press_in_idle_starts_work:
  assumes "fst (buttonPressed m)" and "currentState m = IDLE"
  shows "currentState (loop m) = WORK \<and>
         pomodoroCount (loop m) = 1 \<and>
         totalPomodoroCount (loop m) = totalPomodoroCount m \<and>
         phaseStartTime (loop m) = clock m \<and>
         phaseDuration (loop m) = WORK_TIME \<and>
         \<not> breakAwaitingButton (loop m) \<and>
         emitted m =
           [DigitalWrite P1 LOW, DigitalWrite P2 LOW, DigitalWrite P3 LOW, DigitalWrite P4 LOW,
            DigitalWrite P1 HIGH, DigitalWrite P2 LOW, DigitalWrite P3 LOW, DigitalWrite P4 LOW,
            DigitalWrite RGB_R LOW, DigitalWrite RGB_G HIGH, DigitalWrite RGB_B HIGH]"
  using assms by (simp add: loop_press_idle emitted_def)

text \<open>
  Claim C6. A tick that consumes a press while the state is BREAK and
  \<open>breakAwaitingButton\<close> is set makes the state WORK, adds to \<open>totalRestTimeMs\<close> the
  real time since BREAK was entered (\<open>now - phaseStartTime\<close>, not \<open>BREAK_TIME\<close>), and
  resets a display progress counter that was at the cap of 4 to 0. On the press accepted
  at 82530 ms, after four completed work phases, the transition and the rest time
  (10300 ms) are as claimed, but the progress counter ends at 1: \<open>enterWork\<close>
  increments it right after the reset. The resume path of the earlier sketch ends at 0
  on the same input.
\<close>

theorem resume_press_progress_defect:
  "fst (buttonPressed i_press_resume_at_cap) \<and> currentState i_press_resume_at_cap = BREAK \<and>
   breakAwaitingButton i_press_resume_at_cap \<and> pomodoroCount i_press_resume_at_cap = 4 \<and>
   clock i_press_resume_at_cap - phaseStartTime i_press_resume_at_cap = 10300 \<and>
   currentState (loop i_press_resume_at_cap) = WORK \<and>
   totalRestTimeMs (loop i_press_resume_at_cap) = totalRestTimeMs i_press_resume_at_cap + 10300 \<and>
   pomodoroCount (loop i_press_resume_at_cap) = 1 \<and>
   currentState (loop_sketch i_press_resume_at_cap) = WORK \<and>
   pomodoroCount (loop_sketch i_press_resume_at_cap) = 0"
  by code_simp

text \<open>
  The same on every input: what a resume press does in the ThingSpeak variant.
\<close>

lemma resume_press_starts_work:
  assumes "fst (buttonPressed m)" and "currentState m = BREAK" and "breakAwaitingButton m"
  shows "currentState (loop m) = WORK \<and>
         totalRestTimeMs (loop m) = totalRestTimeMs m + (clock m - phaseStartTime m) \<and>
         pomodoroCount (loop m) = (if 4 \<le> pomodoroCount m then 1 else pomodoroCount m + 1) \<and>
         phaseStartTime (loop m) = clock m \<and>
         phaseDuration (loop m) = WORK_TIME \<and>
         \<not> breakAwaitingButton (loop m) \<and>
         (4 \<le> pomodoroCount m \<longrightarrow>
            emitted m =
              [DigitalWrite P1 LOW, DigitalWrite P2 LOW, DigitalWrite P3 LOW, DigitalWrite P4 LOW,
               DigitalWrite P1 HIGH, DigitalWrite P2 LOW, DigitalWrite P3 LOW, DigitalWrite P4 LOW,
               DigitalWrite RGB_R LOW, DigitalWrite RGB_G HIGH, DigitalWrite RGB_B HIGH])"
  using assms by (simp add: loop_press_resume emitted_def)

text \<open>
  Claim C7. In every run of the loop that consumes a press matching no transition row
  (state WORK, or state BREAK with \<open>breakAwaitingButton\<close> clear), the state becomes IDLE,
  the three channels of the RGB indicator are switched off (HIGH on a common-anode LED)
  and \<open>breakAwaitingButton\<close> is clear.
\<close>

theorem unmatched_press_returns_to_idle:
  assumes "fst (buttonPressed m)"
    and "currentState m = WORK \<or> (currentState m = BREAK \<and> \<not> breakAwaitingButton m)"
  shows "currentState (loop m) = IDLE \<and>
         \<not> breakAwaitingButton (loop m) \<and>
         emitted m = [DigitalWrite RGB_R HIGH, DigitalWrite RGB_G HIGH, DigitalWrite RGB_B HIGH]"
  using assms by (simp add: loop_press_other emitted_def)

theorem unmatched_press_returns_to_idle_witness:
  "fst (buttonPressed i_press_work) \<and> currentState i_press_work = WORK \<and>
   currentState (loop i_press_work) = IDLE \<and> \<not> breakAwaitingButton (loop i_press_work)"
proof -
  have p: "fst (buttonPressed i_press_work)" by code_simp
  have w: "currentState i_press_work = WORK" by code_simp
  from unmatched_press_returns_to_idle [OF p disjI1 [OF w]] p w show ?thesis by simp
qed

text \<open>
  Claim C9. A press that resets the machine to IDLE leaves \<open>totalPomodoroCount\<close>,
  \<open>totalFocusTimeMs\<close>, \<open>totalRestTimeMs\<close>, \<open>totalSessionTimeMs\<close> and the display
  progress counter unchanged and issues no ThingSpeak call: the time already spent in the
  phase is dropped.
\<close>

theorem reset_press_keeps_metrics:
  assumes "fst (buttonPressed m)"
    and "currentState m = WORK \<or> (currentState m = BREAK \<and> \<not> breakAwaitingButton m)"
  shows "totalPomodoroCount (loop m) = totalPomodoroCount m \<and>
         totalFocusTimeMs (loop m) = totalFocusTimeMs m \<and>
         totalRestTimeMs (loop m) = totalRestTimeMs m \<and>
         totalSessionTimeMs (loop m) = totalSessionTimeMs m \<and>
         pomodoroCount (loop m) = pomodoroCount m \<and>
         telemetry (emitted m) = []"
  using assms by (simp add: loop_press_other emitted_def)

theorem reset_press_keeps_metrics_witness:
  "fst (buttonPressed i_press_break_early) \<and> currentState i_press_break_early = BREAK \<and>
   \<not> breakAwaitingButton i_press_break_early \<and>
   clock i_press_break_early - phaseStartTime i_press_break_early = 500 \<and>
   totalRestTimeMs (loop i_press_break_early) = totalRestTimeMs i_press_break_early \<and>
   totalFocusTimeMs (loop i_press_break_early) = totalFocusTimeMs i_press_break_early \<and>
   telemetry (emitted i_press_break_early) = []"
proof -
  have p: "fst (buttonPressed i_press_break_early)" by code_simp
  have b: "currentState i_press_break_early = BREAK \<and> \<not> breakAwaitingButton i_press_break_early"
    by code_simp
  have d: "clock i_press_break_early - phaseStartTime i_press_break_early = 500" by code_simp
  from reset_press_keeps_metrics [OF p disjI2 [OF b]] p b d show ?thesis by simp
qed

section \<open>Reachable machines\<close>

lemma arrive_simps [simp]:
  "totalSessionTimeMs (arrive t lvl m) = totalSessionTimeMs m"
  "totalFocusTimeMs (arrive t lvl m) = totalFocusTimeMs m"
  "totalRestTimeMs (arrive t lvl m) = totalRestTimeMs m"
  "totalPomodoroCount (arrive t lvl m) = totalPomodoroCount m"
  "currentState (arrive t lvl m) = currentState m"
  "phaseStartTime (arrive t lvl m) = phaseStartTime m"
  "phaseDuration (arrive t lvl m) = phaseDuration m"
  "pomodoroCount (arrive t lvl m) = pomodoroCount m"
  "breakAwaitingButton (arrive t lvl m) = breakAwaitingButton m"
  "waitBlinkLast (arrive t lvl m) = waitBlinkLast m"
  "waitBlinkOn (arrive t lvl m) = waitBlinkOn m"
  "clock (arrive t lvl m) = t"
  "btn (arrive t lvl m) = lvl"
  "out (arrive t lvl m) = out m"
  by (simp_all add: arrive_def)

lemma elapsed_mono:
  fixes s c t d :: ulong
  shows "s \<le> c \<Longrightarrow> c \<le> t \<Longrightarrow> d \<le> c - s \<Longrightarrow> d \<le> t - s"
  by unat_arith

lemma elapsed_after_beep:
  fixes s t d :: ulong
  shows "s \<le> t \<Longrightarrow> t \<le> t + 200 \<Longrightarrow> d \<le> t - s \<Longrightarrow> d \<le> t + 200 - s \<and> s \<le> t + 200"
  by unat_arith

lemma setup_board_eq:
  "setup_board (power_on t0) = (power_on t0)
     \<lparr>out := [DigitalWrite P1 LOW, DigitalWrite P2 LOW, DigitalWrite P3 LOW, DigitalWrite P4 LOW,
              DigitalWrite RGB_R HIGH, DigitalWrite RGB_G HIGH, DigitalWrite RGB_B HIGH]\<rparr>"
  by (simp add: setup_board_def power_on_def fn_eqs)


lemma tick_inv_step:
  fixes m :: machine
  assumes W: "currentState m = WORK \<longrightarrow> phaseDuration m = WORK_TIME"
    and B: "currentState m = BREAK \<longrightarrow>
             phaseDuration m = BREAK_TIME \<and> phaseStartTime m \<le> clock m \<and>
             (breakAwaitingButton m \<longleftrightarrow> BREAK_TIME \<le> clock m - phaseStartTime m)"
    and N: "currentState m \<noteq> BREAK \<longrightarrow> \<not> breakAwaitingButton m"
    and mono: "clock m \<le> t" and room: "t \<le> t + 200"
  shows "(currentState (tick t lvl m) = WORK \<longrightarrow> phaseDuration (tick t lvl m) = WORK_TIME) \<and>
         (currentState (tick t lvl m) = BREAK \<longrightarrow>
            phaseDuration (tick t lvl m) = BREAK_TIME \<and>
            phaseStartTime (tick t lvl m) \<le> clock (tick t lvl m) \<and>
            (breakAwaitingButton (tick t lvl m) \<longleftrightarrow>
               BREAK_TIME \<le> clock (tick t lvl m) - phaseStartTime (tick t lvl m))) \<and>
         (currentState (tick t lvl m) \<noteq> BREAK \<longrightarrow> \<not> breakAwaitingButton (tick t lvl m))"
proof -
  let ?a = "arrive t lvl m"
  show ?thesis
  proof (cases "fst (buttonPressed ?a)")
    case True
    then show ?thesis
      by (cases "currentState m"; cases "breakAwaitingButton m")
         (simp_all add: tick_def loop_press_idle loop_press_resume loop_press_other)
  next
    case np: False
    show ?thesis
    proof (cases "currentState m")
      case IDLE
      with np N show ?thesis by (simp add: tick_def loop_quiet)
    next
      case WORK
      with np W N show ?thesis
        by (cases "phaseDuration m \<le> t - phaseStartTime m")
           (simp_all add: tick_def loop_quiet loop_work_expired)
    next
      case BREAK
      with B have d: "phaseDuration m = BREAK_TIME" and s: "phaseStartTime m \<le> clock m"
        and f: "breakAwaitingButton m \<longleftrightarrow> BREAK_TIME \<le> clock m - phaseStartTime m"
        by simp_all
      from s mono have st: "phaseStartTime m \<le> t" by simp
      show ?thesis
      proof (cases "breakAwaitingButton m")
        case True
        with f have "BREAK_TIME \<le> clock m - phaseStartTime m" by simp
        with s mono have "BREAK_TIME \<le> t - phaseStartTime m" by (rule elapsed_mono)
        with np BREAK True d st show ?thesis by (simp add: tick_def loop_break_waiting)
      next
        case na: False
        show ?thesis
        proof (cases "BREAK_TIME \<le> t - phaseStartTime m")
          case True
          with st room have "BREAK_TIME \<le> t + 200 - phaseStartTime m \<and> phaseStartTime m \<le> t + 200"
            by (intro elapsed_after_beep)
          with np BREAK na d True show ?thesis by (simp add: tick_def loop_break_expired)
        next
          case False
          with np BREAK na d st show ?thesis by (simp add: tick_def loop_quiet)
        qed
      qed
    qed
  qed
qed

lemma reach_inv:
  "reach m \<Longrightarrow>
     (currentState m = WORK \<longrightarrow> phaseDuration m = WORK_TIME) \<and>
     (currentState m = BREAK \<longrightarrow>
        phaseDuration m = BREAK_TIME \<and> phaseStartTime m \<le> clock m \<and>
        (breakAwaitingButton m \<longleftrightarrow> BREAK_TIME \<le> clock m - phaseStartTime m)) \<and>
     (currentState m \<noteq> BREAK \<longrightarrow> \<not> breakAwaitingButton m)"
proof (induction rule: reach.induct)
  case (boot t0)
  show ?case unfolding setup_board_eq by (simp add: power_on_def)
next
  case (step m t lvl)
  then show ?case by (intro tick_inv_step) simp_all
qed

lemma reach_run: "reach m \<Longrightarrow> admissible is m \<Longrightarrow> reach (run is m)"
proof (induction "is" arbitrary: m)
  case Nil
  then show ?case by simp
next
  case (Cons i "is")
  obtain t lvl where i: "i = (t, lvl)" by (cases i)
  from Cons.prems i have "reach (tick t lvl m)" and "admissible is (tick t lvl m)"
    by (simp_all add: reach.step)
  then have "reach (run is (tick t lvl m))" by (rule Cons.IH)
  with i show ?case by simp
qed


lemma session_is_run:
  "s_work = run [(300, LOW), (330, LOW)] s_boot"
  "s_released = run [(300, LOW), (330, LOW), (400, HIGH), (430, HIGH)] s_boot"
  "s_break = run [(300, LOW), (330, LOW), (400, HIGH), (430, HIGH), (10330, HIGH)] s_boot"
  "s_await = run [(300, LOW), (330, LOW), (400, HIGH), (430, HIGH), (10330, HIGH),
                  (20530, HIGH)] s_boot"
  "s_down2 = run [(300, LOW), (330, LOW), (400, HIGH), (430, HIGH), (10330, HIGH),
                  (20530, HIGH), (21000, LOW)] s_boot"
  by (simp_all add: s_work_def s_down_def s_released_def s_break_def s_await_def s_down2_def)

lemma reach_s_boot: "reach s_boot"
  unfolding s_boot_def by (rule reach.boot)


lemma reach_s_released: "reach s_released"
  unfolding session_is_run by (rule reach_run [OF reach_s_boot]) code_simp







section \<open>Timer events\<close>

lemma loop_break_stays:
  "\<not> fst (buttonPressed m) \<Longrightarrow> currentState m = BREAK \<Longrightarrow>
   currentState (loop m) = BREAK \<and> totalPomodoroCount (loop m) = totalPomodoroCount m \<and>
   totalFocusTimeMs (loop m) = totalFocusTimeMs m \<and> totalRestTimeMs (loop m) = totalRestTimeMs m"
  by (cases "breakAwaitingButton m"; cases "phaseDuration m \<le> clock m - phaseStartTime m")
     (simp_all add: loop_quiet loop_break_expired loop_break_waiting)

text \<open>
  Claim C2. In a reachable machine in state WORK, a tick that consumes no press and finds
  \<open>now - phaseStartTime \<ge> WORK_TIME\<close> ends in BREAK, sounds the buzzer exactly once,
  increments \<open>totalPomodoroCount\<close> by exactly 1, adds the real elapsed work time (measured
  after the 200 ms beep) to \<open>totalFocusTimeMs\<close>, and stages the four fields and sends
  them. The next tick without a press stays in BREAK and counts nothing more.
\<close>

theorem work_expiry_enters_break:
  assumes "reach m"
    and "\<not> fst (buttonPressed (arrive t lvl m))"
    and "currentState m = WORK"
    and "WORK_TIME \<le> t - phaseStartTime m"
  shows "currentState (tick t lvl m) = BREAK \<and>
         length (filter (\<lambda>e. e = DigitalWrite BUZZ HIGH) (emitted (arrive t lvl m))) = 1 \<and>
         totalPomodoroCount (tick t lvl m) = totalPomodoroCount m + 1 \<and>
         totalFocusTimeMs (tick t lvl m) = totalFocusTimeMs m + (t + 200 - phaseStartTime m) \<and>
         emitted (arrive t lvl m) =
           [DigitalWrite BUZZ HIGH, DigitalWrite BUZZ LOW,
            SetField 1 (Count (totalPomodoroCount m + 1)),
            SetField 3 (Seconds_of_ms (totalFocusTimeMs m + (t + 200 - phaseStartTime m))),
            SetField 4 (Seconds_of_ms (totalRestTimeMs m)),
            SetField 2 (Seconds_of_ms (totalSessionTimeMs m)),
            WriteFields,
            DigitalWrite P1 (1 \<le> pomodoroCount m), DigitalWrite P2 (2 \<le> pomodoroCount m),
            DigitalWrite P3 (3 \<le> pomodoroCount m), DigitalWrite P4 (4 \<le> pomodoroCount m),
            DigitalWrite RGB_R HIGH, DigitalWrite RGB_G HIGH, DigitalWrite RGB_B LOW] \<and>
         (\<forall>t' lvl'. \<not> fst (buttonPressed (arrive t' lvl' (tick t lvl m))) \<longrightarrow>
            currentState (tick t' lvl' (tick t lvl m)) = BREAK \<and>
            totalPomodoroCount (tick t' lvl' (tick t lvl m)) = totalPomodoroCount m + 1)"
proof -
  from reach_inv [OF assms(1)] assms(3) have d: "phaseDuration m = WORK_TIME" by simp
  let ?a = "arrive t lvl m"
  from d assms have e: "phaseDuration ?a \<le> clock ?a - phaseStartTime ?a" by simp
  have l: "loop ?a = (snd (buttonPressed ?a))
     \<lparr>totalPomodoroCount := totalPomodoroCount ?a + 1,
      totalFocusTimeMs := totalFocusTimeMs ?a + (clock ?a + 200 - phaseStartTime ?a),
      pomodoroCount := (if pomodoroCount ?a > 4 then 4 else pomodoroCount ?a),
      currentState := BREAK, phaseStartTime := clock ?a + 200, phaseDuration := BREAK_TIME,
      breakAwaitingButton := False, waitBlinkLast := clock ?a + 200, waitBlinkOn := True,
      clock := clock ?a + 200,
      out := out ?a @
       [DigitalWrite BUZZ HIGH, DigitalWrite BUZZ LOW,
        SetField 1 (Count (totalPomodoroCount ?a + 1)),
        SetField 3 (Seconds_of_ms (totalFocusTimeMs ?a + (clock ?a + 200 - phaseStartTime ?a))),
        SetField 4 (Seconds_of_ms (totalRestTimeMs ?a)),
        SetField 2 (Seconds_of_ms (totalSessionTimeMs ?a)),
        WriteFields,
        DigitalWrite P1 (1 \<le> pomodoroCount ?a), DigitalWrite P2 (2 \<le> pomodoroCount ?a),
        DigitalWrite P3 (3 \<le> pomodoroCount ?a), DigitalWrite P4 (4 \<le> pomodoroCount ?a),
        DigitalWrite RGB_R HIGH, DigitalWrite RGB_G HIGH, DigitalWrite RGB_B LOW]\<rparr>"
    using assms(2,3) e by (intro loop_work_expired) simp_all
  have now: "currentState (tick t lvl m) = BREAK \<and>
      totalPomodoroCount (tick t lvl m) = totalPomodoroCount m + 1 \<and>
      totalFocusTimeMs (tick t lvl m) = totalFocusTimeMs m + (t + 200 - phaseStartTime m)"
    by (simp add: tick_def l)
  have em: "emitted ?a =
           [DigitalWrite BUZZ HIGH, DigitalWrite BUZZ LOW,
            SetField 1 (Count (totalPomodoroCount m + 1)),
            SetField 3 (Seconds_of_ms (totalFocusTimeMs m + (t + 200 - phaseStartTime m))),
            SetField 4 (Seconds_of_ms (totalRestTimeMs m)),
            SetField 2 (Seconds_of_ms (totalSessionTimeMs m)),
            WriteFields,
            DigitalWrite P1 (1 \<le> pomodoroCount m), DigitalWrite P2 (2 \<le> pomodoroCount m),
            DigitalWrite P3 (3 \<le> pomodoroCount m), DigitalWrite P4 (4 \<le> pomodoroCount m),
            DigitalWrite RGB_R HIGH, DigitalWrite RGB_G HIGH, DigitalWrite RGB_B LOW]"
    by (simp add: emitted_def l)
  have one: "length (filter (\<lambda>e. e = DigitalWrite BUZZ HIGH) (emitted ?a)) = 1"
    by (simp add: em)
  have later: "currentState (tick t' lvl' (tick t lvl m)) = BREAK \<and>
      totalPomodoroCount (tick t' lvl' (tick t lvl m)) = totalPomodoroCount m + 1"
    if "\<not> fst (buttonPressed (arrive t' lvl' (tick t lvl m)))" for t' lvl'
    using loop_break_stays [OF that] now by (simp add: tick_def)
  from now em one later show ?thesis by blast
qed

theorem work_expiry_enters_break_witness:
  "reach s_released \<and> \<not> fst (buttonPressed (arrive 10330 HIGH s_released)) \<and>
   currentState s_released = WORK \<and> 10330 - phaseStartTime s_released = 10000 \<and>
   totalPomodoroCount s_released = 0 \<and> totalFocusTimeMs s_released = 0 \<and>
   currentState (tick 10330 HIGH s_released) = BREAK \<and>
   length (filter (\<lambda>e. e = DigitalWrite BUZZ HIGH) (emitted (arrive 10330 HIGH s_released))) = 1 \<and>
   totalPomodoroCount (tick 10330 HIGH s_released) = 1 \<and>
   totalFocusTimeMs (tick 10330 HIGH s_released) = 10200 \<and>
   \<not> fst (buttonPressed (arrive 10400 HIGH (tick 10330 HIGH s_released))) \<and>
   currentState (tick 10400 HIGH (tick 10330 HIGH s_released)) = BREAK \<and>
   totalPomodoroCount (tick 10400 HIGH (tick 10330 HIGH s_released)) = 1"
proof -
  have n: "\<not> fst (buttonPressed (arrive 10330 HIGH s_released))" by code_simp
  have w: "currentState s_released = WORK" by code_simp
  have e: "10330 - phaseStartTime s_released = 10000" by code_simp
  have z: "totalPomodoroCount s_released = 0 \<and> totalFocusTimeMs s_released = 0" by code_simp
  have n': "\<not> fst (buttonPressed (arrive 10400 HIGH (tick 10330 HIGH s_released)))"
    by code_simp
  have x: "WORK_TIME \<le> 10330 - phaseStartTime s_released" by (simp add: e)
  from work_expiry_enters_break [OF reach_s_released n w x] n' z e
  have "currentState (tick 10330 HIGH s_released) = BREAK \<and>
   length (filter (\<lambda>e. e = DigitalWrite BUZZ HIGH) (emitted (arrive 10330 HIGH s_released))) = 1 \<and>
   totalPomodoroCount (tick 10330 HIGH s_released) = 1 \<and>
   totalFocusTimeMs (tick 10330 HIGH s_released) = 10200 \<and>
   currentState (tick 10400 HIGH (tick 10330 HIGH s_released)) = BREAK \<and>
   totalPomodoroCount (tick 10400 HIGH (tick 10330 HIGH s_released)) = 1"
    by simp
  with reach_s_released n w e z n' show ?thesis by simp
qed


text \<open>
  Claim C8. When the break timer expires (no press, state BREAK, not yet awaiting, minimum
  duration elapsed), \<open>totalSessionTimeMs\<close> is set to the raw clock value at that moment
  (after the beep), which is also the value staged in field 2 and sent. No other run of
  the loop changes \<open>totalSessionTimeMs\<close>.
\<close>

theorem session_time_set_at_break_expiry:
  "(\<not> fst (buttonPressed m) \<and> currentState m = BREAK \<and> \<not> breakAwaitingButton m \<and>
      phaseDuration m \<le> clock m - phaseStartTime m \<longrightarrow>
      totalSessionTimeMs (loop m) = clock (loop m) \<and>
      clock (loop m) = clock m + 200 \<and>
      telemetry (emitted m) =
        [SetField 1 (Count (totalPomodoroCount m)),
         SetField 3 (Seconds_of_ms (totalFocusTimeMs m)),
         SetField 4 (Seconds_of_ms (totalRestTimeMs m)),
         SetField 2 (Seconds_of_ms (clock m + 200)),
         WriteFields]) \<and>
   (\<not> (\<not> fst (buttonPressed m) \<and> currentState m = BREAK \<and> \<not> breakAwaitingButton m \<and>
         phaseDuration m \<le> clock m - phaseStartTime m) \<longrightarrow>
      totalSessionTimeMs (loop m) = totalSessionTimeMs m)"
proof (cases "fst (buttonPressed m)")
  case True
  then show ?thesis
    by (cases "currentState m"; cases "breakAwaitingButton m")
       (simp_all add: loop_press_idle loop_press_resume loop_press_other)
next
  case False
  then show ?thesis
    by (cases "currentState m"; cases "breakAwaitingButton m";
        cases "phaseDuration m \<le> clock m - phaseStartTime m")
       (simp_all add: loop_quiet loop_work_expired loop_break_expired loop_break_waiting
          emitted_def)
qed

theorem session_time_set_at_break_expiry_witness:
  "\<not> fst (buttonPressed i_break_expired) \<and> currentState i_break_expired = BREAK \<and>
   \<not> breakAwaitingButton i_break_expired \<and>
   phaseDuration i_break_expired \<le> clock i_break_expired - phaseStartTime i_break_expired \<and>
   clock i_break_expired = 20530 \<and>
   totalSessionTimeMs (loop i_break_expired) = 20730 \<and>
   clock (loop i_break_expired) = 20730 \<and>
   currentState i_work_expired = WORK \<and>
   totalSessionTimeMs (loop i_work_expired) = totalSessionTimeMs i_work_expired"
proof -
  have h: "\<not> fst (buttonPressed i_break_expired) \<and> currentState i_break_expired = BREAK \<and>
      \<not> breakAwaitingButton i_break_expired \<and>
      phaseDuration i_break_expired \<le> clock i_break_expired - phaseStartTime i_break_expired"
    by code_simp
  have c: "clock i_break_expired = 20530" by code_simp
  have w: "currentState i_work_expired = WORK" by code_simp
  from session_time_set_at_break_expiry [of i_break_expired] h c
  have "totalSessionTimeMs (loop i_break_expired) = 20730 \<and> clock (loop i_break_expired) = 20730"
    by simp
  moreover from session_time_set_at_break_expiry [of i_work_expired] w
  have "totalSessionTimeMs (loop i_work_expired) = totalSessionTimeMs i_work_expired"
    by simp
  ultimately show ?thesis using h c w by simp
qed

text \<open>
  Claim C4. A run of the loop that consumes a press performs nothing of the time-based
  logic, whatever the timers say: no beep, no delay, no ThingSpeak call, no change of
  \<open>totalPomodoroCount\<close>, \<open>totalFocusTimeMs\<close> or \<open>totalSessionTimeMs\<close>, no blink step,
  \<open>breakAwaitingButton\<close> not set, no entry into BREAK. A run that consumes no press
  performs nothing of the press branch: \<open>totalRestTimeMs\<close> is unchanged and the only
  possible change of state is WORK to BREAK. The loop of the earlier sketch separates the
  two in the same way.
\<close>

theorem press_tick_skips_timers:
  "(fst (buttonPressed m) \<longrightarrow>
      clock (loop m) = clock m \<and>
      DigitalWrite BUZZ HIGH \<notin> set (emitted m) \<and>
      telemetry (emitted m) = [] \<and>
      totalPomodoroCount (loop m) = totalPomodoroCount m \<and>
      totalFocusTimeMs (loop m) = totalFocusTimeMs m \<and>
      totalSessionTimeMs (loop m) = totalSessionTimeMs m \<and>
      waitBlinkLast (loop m) = waitBlinkLast m \<and>
      waitBlinkOn (loop m) = waitBlinkOn m \<and>
      \<not> breakAwaitingButton (loop m) \<and>
      currentState (loop m) \<noteq> BREAK) \<and>
   (\<not> fst (buttonPressed m) \<longrightarrow>
      totalRestTimeMs (loop m) = totalRestTimeMs m \<and>
      (currentState (loop m) = currentState m \<or>
       currentState m = WORK \<and> currentState (loop m) = BREAK)) \<and>
   (fst (buttonPressed m) \<longrightarrow>
      clock (loop_sketch m) = clock m \<and>
      DigitalWrite BUZZ HIGH \<notin> set (emitted_sketch m) \<and>
      waitBlinkLast (loop_sketch m) = waitBlinkLast m \<and>
      waitBlinkOn (loop_sketch m) = waitBlinkOn m \<and>
      \<not> breakAwaitingButton (loop_sketch m) \<and>
      currentState (loop_sketch m) \<noteq> BREAK) \<and>
   (\<not> fst (buttonPressed m) \<longrightarrow>
      (currentState (loop_sketch m) = currentState m \<or>
       currentState m = WORK \<and> currentState (loop_sketch m) = BREAK))"
proof (cases "fst (buttonPressed m)")
  case True
  then have "clock (loop m) = clock m \<and>
      DigitalWrite BUZZ HIGH \<notin> set (emitted m) \<and>
      telemetry (emitted m) = [] \<and>
      totalPomodoroCount (loop m) = totalPomodoroCount m \<and>
      totalFocusTimeMs (loop m) = totalFocusTimeMs m \<and>
      totalSessionTimeMs (loop m) = totalSessionTimeMs m \<and>
      waitBlinkLast (loop m) = waitBlinkLast m \<and>
      waitBlinkOn (loop m) = waitBlinkOn m \<and>
      \<not> breakAwaitingButton (loop m) \<and>
      currentState (loop m) \<noteq> BREAK"
    by (cases "currentState m"; cases "breakAwaitingButton m")
       (simp_all add: loop_press_idle loop_press_resume loop_press_other emitted_def)
  with True loop_sketch_press [OF True] show ?thesis by simp
next
  case False
  then have "totalRestTimeMs (loop m) = totalRestTimeMs m \<and>
      (currentState (loop m) = currentState m \<or>
       currentState m = WORK \<and> currentState (loop m) = BREAK)"
    by (cases "currentState m"; cases "breakAwaitingButton m";
        cases "phaseDuration m \<le> clock m - phaseStartTime m")
       (simp_all add: loop_quiet loop_work_expired loop_break_expired loop_break_waiting)
  with False loop_sketch_no_press [OF False] show ?thesis by simp
qed

theorem press_tick_skips_timers_witness:
  "fst (buttonPressed i_press_at_expiry) \<and> currentState i_press_at_expiry = WORK \<and>
   phaseDuration i_press_at_expiry \<le> clock i_press_at_expiry - phaseStartTime i_press_at_expiry \<and>
   currentState (loop i_press_at_expiry) = IDLE \<and>
   DigitalWrite BUZZ HIGH \<notin> set (emitted i_press_at_expiry) \<and>
   telemetry (emitted i_press_at_expiry) = [] \<and>
   totalPomodoroCount (loop i_press_at_expiry) = totalPomodoroCount i_press_at_expiry \<and>
   currentState (loop_sketch i_press_at_expiry) = IDLE \<and>
   DigitalWrite BUZZ HIGH \<notin> set (emitted_sketch i_press_at_expiry) \<and>
   \<not> fst (buttonPressed i_work_expired) \<and>
   totalRestTimeMs (loop i_work_expired) = totalRestTimeMs i_work_expired \<and>
   currentState i_work_expired = WORK \<and>
   currentState (loop i_work_expired) = BREAK \<and>
   currentState (loop_sketch i_work_expired) = BREAK"
proof -
  have p: "fst (buttonPressed i_press_at_expiry)" by code_simp
  have w: "currentState i_press_at_expiry = WORK \<and>
      phaseDuration i_press_at_expiry \<le> clock i_press_at_expiry - phaseStartTime i_press_at_expiry"
    by code_simp
  have i: "currentState (loop i_press_at_expiry) = IDLE \<and>
      currentState (loop_sketch i_press_at_expiry) = IDLE"
    by code_simp
  have n: "\<not> fst (buttonPressed i_work_expired)" by code_simp
  have b: "currentState i_work_expired = WORK \<and> currentState (loop i_work_expired) = BREAK \<and>
      currentState (loop_sketch i_work_expired) = BREAK"
    by code_simp
  from press_tick_skips_timers [of i_press_at_expiry] p
  have "DigitalWrite BUZZ HIGH \<notin> set (emitted i_press_at_expiry) \<and>
   telemetry (emitted i_press_at_expiry) = [] \<and>
   totalPomodoroCount (loop i_press_at_expiry) = totalPomodoroCount i_press_at_expiry \<and>
   DigitalWrite BUZZ HIGH \<notin> set (emitted_sketch i_press_at_expiry)"
    by simp
  moreover from press_tick_skips_timers [of i_work_expired] n
  have "totalRestTimeMs (loop i_work_expired) = totalRestTimeMs i_work_expired" by simp
  ultimately show ?thesis using p w i n b by simp
qed

section \<open>Telemetry\<close>

lemma telemetry_append: "telemetry (xs @ ys) = telemetry xs @ telemetry ys"
  by (induction xs rule: telemetry.induct) simp_all

lemma out_loop: "out (loop m) = out m @ emitted m"
proof (cases "fst (buttonPressed m)")
  case True
  then show ?thesis
    by (cases "currentState m"; cases "breakAwaitingButton m")
       (simp_all add: loop_press_idle loop_press_resume loop_press_other emitted_def)
next
  case False
  then show ?thesis
    by (cases "currentState m"; cases "breakAwaitingButton m";
        cases "phaseDuration m \<le> clock m - phaseStartTime m")
       (simp_all add: loop_quiet loop_work_expired loop_break_expired loop_break_waiting
          emitted_def)
qed

lemma out_run_prefix: "\<exists>es. out (run is m) = out m @ es"
proof (induction "is" arbitrary: m)
  case Nil
  show ?case by simp
next
  case (Cons i "is")
  obtain t lvl where i: "i = (t, lvl)" by (cases i)
  from Cons.IH obtain es where "out (run is (tick t lvl m)) = out (tick t lvl m) @ es"
    by blast
  then have "out (run (i # is) m) = out m @ (emitted (arrive t lvl m) @ es)"
    by (simp add: i tick_def out_loop)
  then show ?case by blast
qed

lemma out_run: "out (run is m) = out m @ emitted_run is m"
proof -
  obtain es where "out (run is m) = out m @ es" using out_run_prefix by blast
  then show ?thesis by (simp add: emitted_run_def)
qed

lemma emitted_run_Cons:
  "emitted_run ((t, lvl) # is) m = emitted (arrive t lvl m) @ emitted_run is (tick t lvl m)"
proof -
  have "out (run is (tick t lvl m)) = out (tick t lvl m) @ emitted_run is (tick t lvl m)"
    by (rule out_run)
  also have "out (tick t lvl m) = out m @ emitted (arrive t lvl m)"
    by (simp add: tick_def out_loop)
  finally have "out (run ((t, lvl) # is) m) =
      out m @ (emitted (arrive t lvl m) @ emitted_run is (tick t lvl m))"
    by simp
  then have "drop (length (out m)) (out (run ((t, lvl) # is) m)) =
      emitted (arrive t lvl m) @ emitted_run is (tick t lvl m)"
    by (simp del: run.simps)
  then show ?thesis unfolding emitted_run_def [of "(t, lvl) # is" m] .
qed

lemma tick_telemetry:
  "telemetry (emitted m) =
     (if \<not> fst (buttonPressed m) \<and> currentState m = WORK \<and>
         phaseDuration m \<le> clock m - phaseStartTime m
      then [SetField 1 (Count (totalPomodoroCount m + 1)),
            SetField 3 (Seconds_of_ms (totalFocusTimeMs m + (clock m + 200 - phaseStartTime m))),
            SetField 4 (Seconds_of_ms (totalRestTimeMs m)),
            SetField 2 (Seconds_of_ms (totalSessionTimeMs m)),
            WriteFields]
      else if \<not> fst (buttonPressed m) \<and> currentState m = BREAK \<and> \<not> breakAwaitingButton m \<and>
         phaseDuration m \<le> clock m - phaseStartTime m
      then [SetField 1 (Count (totalPomodoroCount m)),
            SetField 3 (Seconds_of_ms (totalFocusTimeMs m)),
            SetField 4 (Seconds_of_ms (totalRestTimeMs m)),
            SetField 2 (Seconds_of_ms (clock m + 200)),
            WriteFields]
      else [])"
proof (cases "fst (buttonPressed m)")
  case True
  then show ?thesis
    by (cases "currentState m"; cases "breakAwaitingButton m")
       (simp_all add: loop_press_idle loop_press_resume loop_press_other emitted_def)
next
  case False
  then show ?thesis
    by (cases "currentState m"; cases "breakAwaitingButton m";
        cases "phaseDuration m \<le> clock m - phaseStartTime m")
       (simp_all add: loop_quiet loop_work_expired loop_break_expired loop_break_waiting
          emitted_def)
qed

lemma tick_outside_break:
  assumes "currentState m \<noteq> BREAK"
    and "\<not> (\<not> fst (buttonPressed m) \<and> currentState m = WORK \<and>
            phaseDuration m \<le> clock m - phaseStartTime m)"
  shows "currentState (loop m) \<noteq> BREAK \<and> totalPomodoroCount (loop m) = totalPomodoroCount m \<and>
         totalRestTimeMs (loop m) = totalRestTimeMs m \<and>
         totalSessionTimeMs (loop m) = totalSessionTimeMs m"
proof (cases "fst (buttonPressed m)")
  case True
  with assms show ?thesis
    by (cases "currentState m") (simp_all add: loop_press_idle loop_press_other)
next
  case False
  with assms show ?thesis
    by (cases "currentState m") (simp_all add: loop_quiet)
qed

lemma first_flush_outside_break:
  "currentState m \<noteq> BREAK \<Longrightarrow>
   telemetry (emitted_run is m) = [] \<or>
   (\<exists>f more. telemetry (emitted_run is m) =
      [SetField 1 (Count (totalPomodoroCount m + 1)),
       SetField 3 (Seconds_of_ms f),
       SetField 4 (Seconds_of_ms (totalRestTimeMs m)),
       SetField 2 (Seconds_of_ms (totalSessionTimeMs m)),
       WriteFields] @ more)"
proof (induction "is" arbitrary: m)
  case Nil
  show ?case by (simp add: emitted_run_def)
next
  case (Cons i "is")
  obtain t lvl where i: "i = (t, lvl)" by (cases i)
  let ?a = "arrive t lvl m"
  show ?case
  proof (cases "\<not> fst (buttonPressed ?a) \<and> currentState ?a = WORK \<and>
                 phaseDuration ?a \<le> clock ?a - phaseStartTime ?a")
    case True
    then have "telemetry (emitted ?a) =
      [SetField 1 (Count (totalPomodoroCount m + 1)),
       SetField 3 (Seconds_of_ms (totalFocusTimeMs m + (t + 200 - phaseStartTime m))),
       SetField 4 (Seconds_of_ms (totalRestTimeMs m)),
       SetField 2 (Seconds_of_ms (totalSessionTimeMs m)),
       WriteFields]"
      by (simp add: tick_telemetry)
    then show ?thesis
      by (simp add: i emitted_run_Cons telemetry_append)
  next
    case False
    with Cons.prems have q: "telemetry (emitted ?a) = []"
      by (auto simp add: tick_telemetry)
    from Cons.prems have "currentState ?a \<noteq> BREAK" by simp
    from tick_outside_break [OF this False]
    have s: "currentState (tick t lvl m) \<noteq> BREAK"
      and e: "totalPomodoroCount (tick t lvl m) = totalPomodoroCount m"
        "totalRestTimeMs (tick t lvl m) = totalRestTimeMs m"
        "totalSessionTimeMs (tick t lvl m) = totalSessionTimeMs m"
      by (simp_all add: tick_def)
    from Cons.IH [OF s] show ?thesis
      by (simp add: i emitted_run_Cons telemetry_append q e)
  qed
qed

text \<open>
  Claim C10. The ThingSpeak calls of one run of the loop are exactly these: on WORK expiry
  and on the break-timer expiry (BREAK, not yet awaiting, minimum duration elapsed, no
  press in either case) the four fields are staged and sent once; every other run issues
  none. The break-timer expiry sets \<open>breakAwaitingButton\<close>, which stays set while the
  state is BREAK, so each break flushes once. The resume press issues no ThingSpeak call:
  it adds the rest time to \<open>totalRestTimeMs\<close>, and whatever ticks follow, the next
  flush, if any, is a WORK-expiry flush whose field 4 carries that new total.
\<close>

theorem telemetry_flush_points:
  "telemetry (emitted m) =
     (if \<not> fst (buttonPressed m) \<and> currentState m = WORK \<and>
         phaseDuration m \<le> clock m - phaseStartTime m
      then [SetField 1 (Count (totalPomodoroCount m + 1)),
            SetField 3 (Seconds_of_ms (totalFocusTimeMs m + (clock m + 200 - phaseStartTime m))),
            SetField 4 (Seconds_of_ms (totalRestTimeMs m)),
            SetField 2 (Seconds_of_ms (totalSessionTimeMs m)),
            WriteFields]
      else if \<not> fst (buttonPressed m) \<and> currentState m = BREAK \<and> \<not> breakAwaitingButton m \<and>
         phaseDuration m \<le> clock m - phaseStartTime m
      then [SetField 1 (Count (totalPomodoroCount m)),
            SetField 3 (Seconds_of_ms (totalFocusTimeMs m)),
            SetField 4 (Seconds_of_ms (totalRestTimeMs m)),
            SetField 2 (Seconds_of_ms (clock m + 200)),
            WriteFields]
      else []) \<and>
   (\<not> fst (buttonPressed m) \<and> currentState m = BREAK \<and>
      (breakAwaitingButton m \<or> phaseDuration m \<le> clock m - phaseStartTime m) \<longrightarrow>
      currentState (loop m) = BREAK \<and> breakAwaitingButton (loop m)) \<and>
   (fst (buttonPressed m) \<and> currentState m = BREAK \<and> breakAwaitingButton m \<longrightarrow>
      telemetry (emitted m) = [] \<and> currentState (loop m) = WORK \<and>
      totalRestTimeMs (loop m) = totalRestTimeMs m + (clock m - phaseStartTime m) \<and>
      (\<forall>is. telemetry (emitted_run is (loop m)) = [] \<or>
         (\<exists>f more. telemetry (emitted_run is (loop m)) =
            [SetField 1 (Count (totalPomodoroCount m + 1)),
             SetField 3 (Seconds_of_ms f),
             SetField 4 (Seconds_of_ms (totalRestTimeMs m + (clock m - phaseStartTime m))),
             SetField 2 (Seconds_of_ms (totalSessionTimeMs m)),
             WriteFields] @ more)))"
proof (intro conjI impI)
  show "telemetry (emitted m) =
     (if \<not> fst (buttonPressed m) \<and> currentState m = WORK \<and>
         phaseDuration m \<le> clock m - phaseStartTime m
      then [SetField 1 (Count (totalPomodoroCount m + 1)),
            SetField 3 (Seconds_of_ms (totalFocusTimeMs m + (clock m + 200 - phaseStartTime m))),
            SetField 4 (Seconds_of_ms (totalRestTimeMs m)),
            SetField 2 (Seconds_of_ms (totalSessionTimeMs m)),
            WriteFields]
      else if \<not> fst (buttonPressed m) \<and> currentState m = BREAK \<and> \<not> breakAwaitingButton m \<and>
         phaseDuration m \<le> clock m - phaseStartTime m
      then [SetField 1 (Count (totalPomodoroCount m)),
            SetField 3 (Seconds_of_ms (totalFocusTimeMs m)),
            SetField 4 (Seconds_of_ms (totalRestTimeMs m)),
            SetField 2 (Seconds_of_ms (clock m + 200)),
            WriteFields]
      else [])"
    by (rule tick_telemetry)
next
  assume "\<not> fst (buttonPressed m) \<and> currentState m = BREAK \<and>
      (breakAwaitingButton m \<or> phaseDuration m \<le> clock m - phaseStartTime m)"
  then show "currentState (loop m) = BREAK" "breakAwaitingButton (loop m)"
    by (cases "breakAwaitingButton m"; simp add: loop_break_expired loop_break_waiting)+
next
  assume r: "fst (buttonPressed m) \<and> currentState m = BREAK \<and> breakAwaitingButton m"
  then show "telemetry (emitted m) = []" by (simp add: tick_telemetry)
  from r show w: "currentState (loop m) = WORK"
    and t: "totalRestTimeMs (loop m) = totalRestTimeMs m + (clock m - phaseStartTime m)"
    by (simp_all add: loop_press_resume)
  from r have k: "totalPomodoroCount (loop m) = totalPomodoroCount m"
    "totalSessionTimeMs (loop m) = totalSessionTimeMs m"
    by (simp_all add: loop_press_resume)
  from w have "currentState (loop m) \<noteq> BREAK" by simp
  from first_flush_outside_break [OF this]
  show "\<forall>is. telemetry (emitted_run is (loop m)) = [] \<or>
         (\<exists>f more. telemetry (emitted_run is (loop m)) =
            [SetField 1 (Count (totalPomodoroCount m + 1)),
             SetField 3 (Seconds_of_ms f),
             SetField 4 (Seconds_of_ms (totalRestTimeMs m + (clock m - phaseStartTime m))),
             SetField 2 (Seconds_of_ms (totalSessionTimeMs m)),
             WriteFields] @ more)"
    by (simp add: t k)
qed


theorem telemetry_flush_points_witness:
  "\<not> fst (buttonPressed i_work_expired) \<and> currentState i_work_expired = WORK \<and>
   phaseDuration i_work_expired \<le> clock i_work_expired - phaseStartTime i_work_expired \<and>
   telemetry (emitted i_work_expired) =
     [SetField 1 (Count 1), SetField 3 (Seconds_of_ms 10200), SetField 4 (Seconds_of_ms 0),
      SetField 2 (Seconds_of_ms 0), WriteFields] \<and>
   \<not> fst (buttonPressed i_break_expired) \<and> currentState i_break_expired = BREAK \<and>
   phaseDuration i_break_expired \<le> clock i_break_expired - phaseStartTime i_break_expired \<and>
   currentState (loop i_break_expired) = BREAK \<and> breakAwaitingButton (loop i_break_expired) \<and>
   fst (buttonPressed i_press_resume) \<and> currentState i_press_resume = BREAK \<and>
   breakAwaitingButton i_press_resume \<and>
   telemetry (emitted i_press_resume) = [] \<and> currentState (loop i_press_resume) = WORK \<and>
   totalRestTimeMs (loop i_press_resume) = 10500 \<and>
   telemetry (emitted_run [(21100, HIGH), (21130, HIGH), (31030, HIGH)] (loop i_press_resume)) =
     [SetField 1 (Count 2), SetField 3 (Seconds_of_ms 20400), SetField 4 (Seconds_of_ms 10500),
      SetField 2 (Seconds_of_ms 20730), WriteFields]"
proof -
  have w: "\<not> fst (buttonPressed i_work_expired) \<and> currentState i_work_expired = WORK \<and>
      phaseDuration i_work_expired \<le> clock i_work_expired - phaseStartTime i_work_expired"
    by code_simp
  have wv: "totalPomodoroCount i_work_expired = 0 \<and> totalFocusTimeMs i_work_expired = 0 \<and>
      totalRestTimeMs i_work_expired = 0 \<and> totalSessionTimeMs i_work_expired = 0 \<and>
      clock i_work_expired + 200 - phaseStartTime i_work_expired = 10200"
    by code_simp
  have b: "\<not> fst (buttonPressed i_break_expired) \<and> currentState i_break_expired = BREAK \<and>
      phaseDuration i_break_expired \<le> clock i_break_expired - phaseStartTime i_break_expired"
    by code_simp
  have r: "fst (buttonPressed i_press_resume) \<and> currentState i_press_resume = BREAK \<and>
      breakAwaitingButton i_press_resume"
    by code_simp
  have rv: "totalRestTimeMs i_press_resume + (clock i_press_resume - phaseStartTime i_press_resume)
      = 10500"
    by code_simp
  have n: "telemetry (emitted_run [(21100, HIGH), (21130, HIGH), (31030, HIGH)]
        (loop i_press_resume)) =
     [SetField 1 (Count 2), SetField 3 (Seconds_of_ms 20400), SetField 4 (Seconds_of_ms 10500),
      SetField 2 (Seconds_of_ms 20730), WriteFields]"
    by code_simp
  from telemetry_flush_points [of i_work_expired] w wv
  have 1: "telemetry (emitted i_work_expired) =
     [SetField 1 (Count 1), SetField 3 (Seconds_of_ms 10200), SetField 4 (Seconds_of_ms 0),
      SetField 2 (Seconds_of_ms 0), WriteFields]"
    by simp
  from telemetry_flush_points [of i_break_expired] b
  have 2: "currentState (loop i_break_expired) = BREAK \<and> breakAwaitingButton (loop i_break_expired)"
    by simp
  from telemetry_flush_points [of i_press_resume] r rv
  have 3: "telemetry (emitted i_press_resume) = [] \<and> currentState (loop i_press_resume) = WORK \<and>
      totalRestTimeMs (loop i_press_resume) = 10500"
    by simp
  from w b r n 1 2 3 show ?thesis by simp
qed

section \<open>The edge detector\<close>

lemma buttonPressed_reported:
  "fst (buttonPressed m) \<Longrightarrow>
   btn m = LOW \<and> COOLDOWN_MS \<le> clock m - lastEvent m \<and>
   lastEvent (snd (buttonPressed m)) = clock m \<and> stableState (snd (buttonPressed m)) = LOW"
  by (auto simp add: buttonPressed_def digitalRead_def millis_def Let_def split: if_splits)

lemma buttonPressed_silent:
  "\<not> fst (buttonPressed m) \<Longrightarrow> lastEvent (snd (buttonPressed m)) = lastEvent m"
  by (auto simp add: buttonPressed_def digitalRead_def millis_def Let_def split: if_splits)

lemma buttonPressed_held:
  "stableState m = LOW \<Longrightarrow> btn m = LOW \<Longrightarrow>
   \<not> fst (buttonPressed m) \<and> stableState (snd (buttonPressed m)) = LOW"
  by (simp add: buttonPressed_def digitalRead_def millis_def Let_def)

lemma buttonPressed_commit_low:
  "btn m = LOW \<Longrightarrow> stableState m = HIGH \<Longrightarrow> stableState (snd (buttonPressed m)) = LOW \<Longrightarrow>
   fst (buttonPressed m) \<longleftrightarrow> COOLDOWN_MS \<le> clock m - lastEvent m"
  by (auto simp add: buttonPressed_def digitalRead_def millis_def Let_def split: if_splits)

lemma cooldown_real_time:
  assumes "e \<le> t" and "(250 :: ulong) \<le> of_nat t - of_nat e"
  shows "e + 250 \<le> t"
proof -
  have "(of_nat t - of_nat e :: ulong) = of_nat (t - e)"
    using assms(1) by simp
  with assms(2) have "unat (250 :: ulong) \<le> unat (of_nat (t - e) :: ulong)"
    by (simp add: word_le_nat_alt)
  then have "250 \<le> (t - e) mod 2 ^ 32"
    by (simp add: unat_of_nat)
  also have "\<dots> \<le> t - e" by simp
  finally show ?thesis using assms(1) by simp
qed


lemma presses_after_event:
  "sorted (map snd ps) \<Longrightarrow> \<forall>p\<in>set ps. e \<le> snd p \<Longrightarrow> lastEvent m = of_nat e \<Longrightarrow>
   sorted_wrt (\<lambda>x y. x + 250 \<le> y) (presses m ps) \<and> (\<forall>x\<in>set (presses m ps). e + 250 \<le> x)"
proof (induction ps arbitrary: m e)
  case Nil
  show ?case by simp
next
  case (Cons p ps)
  obtain lvl t where p: "p = (lvl, t)" by (cases p)
  let ?a = "m\<lparr>clock := of_nat t, btn := lvl\<rparr>"
  from Cons.prems p have et: "e \<le> t" and srt: "sorted (map snd ps)"
    and later: "\<forall>q\<in>set ps. t \<le> snd q" and later_e: "\<forall>q\<in>set ps. e \<le> snd q"
    by auto
  show ?case
  proof (cases "fst (buttonPressed ?a)")
    case True
    from buttonPressed_reported [OF True] Cons.prems(3)
    have cd: "(250 :: ulong) \<le> of_nat t - of_nat e"
      and le: "lastEvent (snd (buttonPressed ?a)) = of_nat t"
      by auto
    from et cd have far: "e + 250 \<le> t" by (rule cooldown_real_time)
    from Cons.IH [OF srt later le]
    have "sorted_wrt (\<lambda>x y. x + 250 \<le> y) (presses (snd (buttonPressed ?a)) ps)"
      and "\<forall>x\<in>set (presses (snd (buttonPressed ?a)) ps). t + 250 \<le> x"
      by simp_all
    with True far show ?thesis by (auto simp add: p Let_def)
  next
    case False
    from buttonPressed_silent [OF False] Cons.prems(3)
    have le: "lastEvent (snd (buttonPressed ?a)) = of_nat e" by simp
    from Cons.IH [OF srt later_e le] False show ?thesis by (simp add: p Let_def)
  qed
qed

lemma presses_spaced:
  "sorted (map snd ps) \<Longrightarrow> sorted_wrt (\<lambda>x y. x + 250 \<le> y) (presses m ps)"
proof (induction ps arbitrary: m)
  case Nil
  show ?case by simp
next
  case (Cons p ps)
  obtain lvl t where p: "p = (lvl, t)" by (cases p)
  let ?a = "m\<lparr>clock := of_nat t, btn := lvl\<rparr>"
  from Cons.prems p have srt: "sorted (map snd ps)" and later: "\<forall>q\<in>set ps. t \<le> snd q"
    by auto
  show ?case
  proof (cases "fst (buttonPressed ?a)")
    case True
    from buttonPressed_reported [OF True]
    have le: "lastEvent (snd (buttonPressed ?a)) = of_nat t" by auto
    from presses_after_event [OF srt later le] True show ?thesis
      by (simp add: p Let_def)
  next
    case False
    with Cons.IH [OF srt] show ?thesis by (simp add: p Let_def)
  qed
qed

lemma spaced_window:
  "sorted_wrt (\<lambda>x y. x + 250 \<le> y) (xs :: nat list) \<Longrightarrow>
   length (filter (\<lambda>x. a \<le> x \<and> x < a + 250) xs) \<le> 1"
proof (induction xs)
  case Nil
  show ?case by simp
next
  case (Cons x xs)
  show ?case
  proof (cases "a \<le> x \<and> x < a + 250")
    case True
    with Cons.prems have "\<forall>y\<in>set xs. \<not> (a \<le> y \<and> y < a + 250)" by auto
    then have "filter (\<lambda>x. a \<le> x \<and> x < a + 250) xs = []" by (simp add: filter_empty_conv)
    with True show ?thesis by simp
  next
    case False
    with Cons show ?thesis by auto
  qed
qed

lemma held_after_commit:
  "stableState m = LOW \<Longrightarrow> \<forall>p\<in>set ps. fst p = LOW \<Longrightarrow> presses m ps = []"
proof (induction ps arbitrary: m)
  case Nil
  show ?case by simp
next
  case (Cons p ps)
  obtain lvl t where p: "p = (lvl, t)" by (cases p)
  with Cons.prems have l: "lvl = LOW" by simp
  let ?a = "m\<lparr>clock := of_nat t, btn := LOW\<rparr>"
  from Cons.prems(1) have "\<not> fst (buttonPressed ?a) \<and> stableState (snd (buttonPressed ?a)) = LOW"
    by (intro buttonPressed_held) simp_all
  with Cons.IH [of "snd (buttonPressed ?a)"] Cons.prems(2) show ?case
    by (simp add: p l Let_def)
qed

lemma held_at_most_one:
  "\<forall>p\<in>set ps. fst p = LOW \<Longrightarrow> length (presses m ps) \<le> 1"
proof (induction ps arbitrary: m)
  case Nil
  show ?case by simp
next
  case (Cons p ps)
  obtain lvl t where p: "p = (lvl, t)" by (cases p)
  with Cons.prems have l: "lvl = LOW" and rest: "\<forall>q\<in>set ps. fst q = LOW" by simp_all
  let ?a = "m\<lparr>clock := of_nat t, btn := LOW\<rparr>"
  show ?case
  proof (cases "fst (buttonPressed ?a)")
    case True
    from buttonPressed_reported [OF True] have "stableState (snd (buttonPressed ?a)) = LOW"
      by simp
    from held_after_commit [OF this rest] True show ?thesis by (simp add: p l Let_def)
  next
    case False
    with Cons.IH [OF rest] show ?thesis by (simp add: p l Let_def)
  qed
qed

lemma buttonPressed_report_iff:
  "fst (buttonPressed m) \<longleftrightarrow>
     btn m = LOW \<and> lastReading m = LOW \<and> stableState m = HIGH \<and>
     DEBOUNCE_MS \<le> clock m - lastChange m \<and> COOLDOWN_MS \<le> clock m - lastEvent m"
  by (auto simp add: buttonPressed_def digitalRead_def millis_def Let_def split: if_splits)

lemma buttonPressed_lastEvent:
  "lastEvent (snd (buttonPressed m)) = (if fst (buttonPressed m) then clock m else lastEvent m)"
  using buttonPressed_reported [of m] buttonPressed_silent [of m] by auto

lemma presses_subset: "set (presses m ps) \<subseteq> snd ` set ps"
proof (induction ps arbitrary: m)
  case Nil
  show ?case by simp
next
  case (Cons p ps)
  obtain lvl t where p: "p = (lvl, t)" by (cases p)
  from Cons.IH [of "snd (buttonPressed (m\<lparr>clock := of_nat t, btn := lvl\<rparr>))"]
  show ?case by (auto simp add: p Let_def)
qed

lemma polled_lastEvent:
  "lastEvent (polled m ps) =
     (if presses m ps = [] then lastEvent m else of_nat (last (presses m ps)))"
proof (induction ps arbitrary: m)
  case Nil
  show ?case by simp
next
  case (Cons p ps)
  obtain lvl t where p: "p = (lvl, t)" by (cases p)
  let ?a = "m\<lparr>clock := of_nat t, btn := lvl\<rparr>"
  have le: "lastEvent (snd (buttonPressed ?a)) = (if fst (buttonPressed ?a) then of_nat t else lastEvent m)"
    by (simp add: buttonPressed_lastEvent)
  show ?case
    by (simp add: p Let_def Cons.IH [of "snd (buttonPressed ?a)"] le)
qed

lemma cooldown_real_time_iff:
  assumes "e \<le> t" and "t < 2 ^ 32"
  shows "(250 :: ulong) \<le> of_nat t - of_nat e \<longleftrightarrow> e + 250 \<le> t"
proof -
  have a: "(of_nat t - of_nat e :: ulong) = of_nat (t - e)"
    using assms(1) by simp
  have "unat (of_nat (t - e) :: ulong) = (t - e) mod 2 ^ 32"
    by (simp only: unat_of_nat) simp
  also have "\<dots> = t - e" using assms by simp
  finally have b: "unat (of_nat (t - e) :: ulong) = t - e" .
  have "(250 :: ulong) \<le> of_nat (t - e) \<longleftrightarrow> unat (250 :: ulong) \<le> unat (of_nat (t - e) :: ulong)"
    by (rule word_le_nat_alt)
  also have "\<dots> \<longleftrightarrow> 250 \<le> t - e" by (simp only: b) simp
  also have "\<dots> \<longleftrightarrow> e + 250 \<le> t" using assms(1) by auto
  finally show ?thesis by (simp only: a)
qed

lemma commit_after_last_press:
  assumes srt: "\<forall>p\<in>set ps. snd p \<le> t" and t: "t < 2 ^ 32"
    and some: "presses m ps \<noteq> []"
    and hi: "stableState (polled m ps) = HIGH"
    and lo: "stableState (snd (buttonPressed ((polled m ps)\<lparr>clock := of_nat t, btn := LOW\<rparr>))) = LOW"
  shows "fst (buttonPressed ((polled m ps)\<lparr>clock := of_nat t, btn := LOW\<rparr>)) \<longleftrightarrow>
         last (presses m ps) + 250 \<le> t"
proof -
  let ?a = "(polled m ps)\<lparr>clock := of_nat t, btn := LOW\<rparr>"
  from some have "last (presses m ps) \<in> set (presses m ps)" by simp
  with presses_subset [of m ps] have "last (presses m ps) \<in> snd ` set ps" by blast
  then obtain p where "p \<in> set ps" and "snd p = last (presses m ps)" by auto
  with srt have e: "last (presses m ps) \<le> t" by auto
  from some have le: "lastEvent ?a = of_nat (last (presses m ps))"
    by (simp add: polled_lastEvent)
  have "fst (buttonPressed ?a) \<longleftrightarrow> COOLDOWN_MS \<le> clock ?a - lastEvent ?a"
    using hi lo by (intro buttonPressed_commit_low) simp_all
  also have "\<dots> \<longleftrightarrow> (250 :: ulong) \<le> of_nat t - of_nat (last (presses m ps))"
    by (simp add: le)
  also have "\<dots> \<longleftrightarrow> last (presses m ps) + 250 \<le> t"
    using e t by (rule cooldown_real_time_iff)
  finally show ?thesis .
qed

text \<open>
  Claim C5 (as amended). For polls at non-decreasing true times, any two reported presses
  are at least 250 ms apart, so every 250 ms window holds at most one. While the raw
  level stays low, at most one press is reported and none after the low level has been
  committed: exactly one, reported by the poll that commits it, when that commit comes at
  least \<open>COOLDOWN_MS\<close> after the last reported press, and none when the commit falls
  inside the cooldown (the press is dropped). The cooldown runs from the last reported
  press: \<open>lastEvent\<close> is set by a poll that reports and by no other, so a dropped
  commit does not restart it.
\<close>

theorem edge_detector_cooldown:
  "(sorted (map snd ps) \<longrightarrow>
      (\<forall>a. length (filter (\<lambda>x. a \<le> x \<and> x < a + 250) (presses m ps)) \<le> 1) \<and>
      sorted_wrt (\<lambda>x y. x + 250 \<le> y) (presses m ps)) \<and>
   ((\<forall>p\<in>set ps. fst p = LOW) \<longrightarrow>
      length (presses m ps) \<le> 1 \<and>
      (stableState m = LOW \<longrightarrow> presses m ps = []) \<and>
      (\<forall>t. fst (buttonPressed (m\<lparr>clock := of_nat t, btn := LOW\<rparr>)) \<longrightarrow>
           presses m ((LOW, t) # ps) = [t]) \<and>
      (\<forall>t. \<not> fst (buttonPressed (m\<lparr>clock := of_nat t, btn := LOW\<rparr>)) \<and>
           stableState (snd (buttonPressed (m\<lparr>clock := of_nat t, btn := LOW\<rparr>))) = LOW \<longrightarrow>
           presses m ((LOW, t) # ps) = [])) \<and>
   (btn m = LOW \<and> stableState m = HIGH \<and> stableState (snd (buttonPressed m)) = LOW \<longrightarrow>
      (fst (buttonPressed m) \<longleftrightarrow> COOLDOWN_MS \<le> clock m - lastEvent m)) \<and>
   (fst (buttonPressed m) \<longleftrightarrow>
      btn m = LOW \<and> lastReading m = LOW \<and> stableState m = HIGH \<and>
      DEBOUNCE_MS \<le> clock m - lastChange m \<and> COOLDOWN_MS \<le> clock m - lastEvent m) \<and>
   lastEvent (snd (buttonPressed m)) = (if fst (buttonPressed m) then clock m else lastEvent m) \<and>
   lastEvent (polled m ps) =
     (if presses m ps = [] then lastEvent m else of_nat (last (presses m ps))) \<and>
   (\<forall>t. (\<forall>p\<in>set ps. snd p \<le> t) \<and> t < 2 ^ 32 \<and> presses m ps \<noteq> [] \<and>
        stableState (polled m ps) = HIGH \<and>
        stableState (snd (buttonPressed ((polled m ps)\<lparr>clock := of_nat t, btn := LOW\<rparr>))) = LOW \<longrightarrow>
        (fst (buttonPressed ((polled m ps)\<lparr>clock := of_nat t, btn := LOW\<rparr>)) \<longleftrightarrow>
         last (presses m ps) + 250 \<le> t))"
proof (intro conjI impI allI)
  assume s: "sorted (map snd ps)"
  from presses_spaced [OF s] show "sorted_wrt (\<lambda>x y. x + 250 \<le> y) (presses m ps)" .
  then show "length (filter (\<lambda>x. a \<le> x \<and> x < a + 250) (presses m ps)) \<le> 1" for a
    by (rule spaced_window)
next
  assume h: "\<forall>p\<in>set ps. fst p = LOW"
  then show "length (presses m ps) \<le> 1" by (rule held_at_most_one)
  show "presses m ps = []" if "stableState m = LOW"
    using that h by (rule held_after_commit)
  show "presses m ((LOW, t) # ps) = [t]"
    if r: "fst (buttonPressed (m\<lparr>clock := of_nat t, btn := LOW\<rparr>))" for t
  proof -
    from buttonPressed_reported [OF r]
    have "stableState (snd (buttonPressed (m\<lparr>clock := of_nat t, btn := LOW\<rparr>))) = LOW"
      by simp
    from held_after_commit [OF this h] r show ?thesis by (simp add: Let_def)
  qed
  show "presses m ((LOW, t) # ps) = []"
    if d: "\<not> fst (buttonPressed (m\<lparr>clock := of_nat t, btn := LOW\<rparr>)) \<and>
           stableState (snd (buttonPressed (m\<lparr>clock := of_nat t, btn := LOW\<rparr>))) = LOW" for t
  proof -
    from d have "stableState (snd (buttonPressed (m\<lparr>clock := of_nat t, btn := LOW\<rparr>))) = LOW"
      by simp
    from held_after_commit [OF this h] d show ?thesis by (simp add: Let_def)
  qed
next
  assume "btn m = LOW \<and> stableState m = HIGH \<and> stableState (snd (buttonPressed m)) = LOW"
  then show "fst (buttonPressed m) \<longleftrightarrow> COOLDOWN_MS \<le> clock m - lastEvent m"
    by (intro buttonPressed_commit_low) simp_all
next
  show "fst (buttonPressed m) \<longleftrightarrow>
      btn m = LOW \<and> lastReading m = LOW \<and> stableState m = HIGH \<and>
      DEBOUNCE_MS \<le> clock m - lastChange m \<and> COOLDOWN_MS \<le> clock m - lastEvent m"
    by (rule buttonPressed_report_iff)
next
  show "lastEvent (snd (buttonPressed m)) = (if fst (buttonPressed m) then clock m else lastEvent m)"
    by (rule buttonPressed_lastEvent)
next
  show "lastEvent (polled m ps) =
     (if presses m ps = [] then lastEvent m else of_nat (last (presses m ps)))"
    by (rule polled_lastEvent)
next
  fix t
  assume c: "(\<forall>p\<in>set ps. snd p \<le> t) \<and> t < 2 ^ 32 \<and> presses m ps \<noteq> [] \<and>
        stableState (polled m ps) = HIGH \<and>
        stableState (snd (buttonPressed ((polled m ps)\<lparr>clock := of_nat t, btn := LOW\<rparr>))) = LOW"
  then show "fst (buttonPressed ((polled m ps)\<lparr>clock := of_nat t, btn := LOW\<rparr>)) \<longleftrightarrow>
         last (presses m ps) + 250 \<le> t"
    by (intro commit_after_last_press) simp_all
qed

theorem edge_detector_cooldown_witness:
  "sorted (map snd (double_press @ held_low)) \<and>
   presses s_boot (double_press @ held_low) = [330] \<and>
   length (filter (\<lambda>x. 300 \<le> x \<and> x < 300 + 250) (presses s_boot (double_press @ held_low))) \<le> 1 \<and>
   list_all (\<lambda>p. fst p = LOW) held_low \<and>
   length (presses (polled s_boot double_press) held_low) \<le> 1 \<and>
   stableState (polled s_boot (double_press @ [(LOW, 380), (LOW, 410)])) = LOW \<and>
   presses (polled s_boot (double_press @ [(LOW, 380), (LOW, 410)])) [(LOW, 500), (LOW, 5000)] = [] \<and>
   fst (buttonPressed ((polled s_boot [(LOW, 300)])\<lparr>clock := of_nat 330, btn := LOW\<rparr>)) \<and>
   presses (polled s_boot [(LOW, 300)]) ((LOW, 330) # held_low) = [330] \<and>
   stableState (polled s_boot (double_press @ [(LOW, 380)])) = HIGH \<and>
   \<not> fst (buttonPressed ((polled s_boot (double_press @ [(LOW, 380)]))\<lparr>clock := 410, btn := LOW\<rparr>)) \<and>
   \<not> COOLDOWN_MS \<le> 410 - lastEvent (polled s_boot (double_press @ [(LOW, 380)])) \<and>
   presses (polled s_boot (double_press @ [(LOW, 380)])) ((LOW, 410) # [(LOW, 500), (LOW, 5000)]) = [] \<and>
   presses s_boot triple_press = [330] \<and>
   lastEvent (polled s_boot triple_press) = 330 \<and>
   stableState (polled s_boot triple_press) = HIGH \<and>
   fst (buttonPressed ((polled s_boot triple_press)\<lparr>clock := of_nat 600, btn := LOW\<rparr>)) \<and>
   lastEvent (snd (buttonPressed ((polled s_boot triple_press)\<lparr>clock := of_nat 600, btn := LOW\<rparr>))) = 600 \<and>
   presses s_boot (triple_press @ [(LOW, 600), (LOW, 5000)]) = [330, 600]"
proof -
  let ?m1 = "polled s_boot (double_press @ [(LOW, 380), (LOW, 410)])"
  let ?m2 = "(polled s_boot (double_press @ [(LOW, 380)]))\<lparr>clock := 410, btn := LOW\<rparr>"
  let ?m3 = "(polled s_boot triple_press)\<lparr>clock := of_nat 600, btn := LOW\<rparr>"
  have srt: "sorted (map snd (double_press @ held_low))" by code_simp
  have val: "presses s_boot (double_press @ held_low) = [330]" by code_simp
  have low: "\<forall>p\<in>set held_low. fst p = LOW" by code_simp
  have low2: "\<forall>p\<in>set [(LOW, 500), (LOW, 5000 :: nat)]. fst p = LOW" by simp
  have st: "stableState ?m1 = LOW" by code_simp
  have rep: "fst (buttonPressed ((polled s_boot [(LOW, 300)])\<lparr>clock := of_nat 330, btn := LOW\<rparr>))"
    by code_simp
  have c: "btn ?m2 = LOW \<and> stableState ?m2 = HIGH \<and> stableState (snd (buttonPressed ?m2)) = LOW"
    by code_simp
  have n: "\<not> fst (buttonPressed ?m2)" by code_simp
  have k: "clock ?m2 = 410 \<and> lastEvent ?m2 = lastEvent (polled s_boot (double_press @ [(LOW, 380)]))
     \<and> stableState ?m2 = stableState (polled s_boot (double_press @ [(LOW, 380)]))"
    by simp
  have m2: "?m2 = (polled s_boot (double_press @ [(LOW, 380)]))\<lparr>clock := of_nat 410, btn := LOW\<rparr>"
    by simp
  have tp: "presses s_boot triple_press = [330]" by code_simp
  have tb: "\<forall>p\<in>set triple_press. snd p \<le> 600" by code_simp
  have ts: "stableState (polled s_boot triple_press) = HIGH \<and>
      stableState (snd (buttonPressed ?m3)) = LOW"
    by code_simp
  have all: "presses s_boot (triple_press @ [(LOW, 600), (LOW, 5000)]) = [330, 600]"
    by code_simp
  from edge_detector_cooldown [of "double_press @ held_low" s_boot] srt
  have 1: "length (filter (\<lambda>x. 300 \<le> x \<and> x < 300 + 250)
      (presses s_boot (double_press @ held_low))) \<le> 1"
    by blast
  from edge_detector_cooldown [of held_low "polled s_boot double_press"] low
  have 2: "length (presses (polled s_boot double_press) held_low) \<le> 1" by blast
  from edge_detector_cooldown [of "[(LOW, 500), (LOW, 5000)]" ?m1] low2 st
  have 3: "presses ?m1 [(LOW, 500), (LOW, 5000)] = []" by blast
  from edge_detector_cooldown [of held_low "polled s_boot [(LOW, 300)]"] low rep
  have 4: "presses (polled s_boot [(LOW, 300)]) ((LOW, 330) # held_low) = [330]" by blast
  from edge_detector_cooldown [of _ ?m2] c n
  have 5: "\<not> COOLDOWN_MS \<le> clock ?m2 - lastEvent ?m2" by blast
  from edge_detector_cooldown [of "[(LOW, 500), (LOW, 5000)]"
      "polled s_boot (double_press @ [(LOW, 380)])"] low2 n c
  have 6: "presses (polled s_boot (double_press @ [(LOW, 380)]))
      ((LOW, 410) # [(LOW, 500), (LOW, 5000)]) = []"
    unfolding m2 by blast
  from edge_detector_cooldown [of triple_press s_boot] tp
  have 7: "lastEvent (polled s_boot triple_press) = 330" by simp
  note G = edge_detector_cooldown [of triple_press s_boot, THEN conjunct2, THEN conjunct2,
      THEN conjunct2, THEN conjunct2, THEN conjunct2, THEN conjunct2, rule_format, of 600]
  have ne: "presses s_boot triple_press \<noteq> []" by (simp add: tp)
  have lt: "(600 :: nat) < 2 ^ 32" by simp
  from tb lt ne ts
  have "fst (buttonPressed ?m3) \<longleftrightarrow> last (presses s_boot triple_press) + 250 \<le> 600"
    by (intro G conjI) simp_all
  with tp have 8: "fst (buttonPressed ?m3)" by simp
  from edge_detector_cooldown [of _ ?m3] 8
  have 9: "lastEvent (snd (buttonPressed ?m3)) = 600" by simp
  from srt val low 1 2 st 3 rep 4 c n 5 k 6 tp 7 ts 8 9 all show ?thesis
    by (simp add: list_all_iff)
qed

text \<open>
  The claim as written promises exactly one press for a level held low after its stable
  commit: the second press of a quick double press is committed at 410 ms, 80 ms after
  the press reported at 330 ms, and held until 5000 ms without any press being reported.
\<close>

theorem held_press_without_event_counterexample:
  "presses s_boot double_press = [330] \<and>
   stableState (polled s_boot double_press) = HIGH \<and>
   list_all (\<lambda>p. fst p = LOW) held_low \<and>
   stableState (polled s_boot (double_press @ [(LOW, 380), (LOW, 410)])) = LOW \<and>
   presses (polled s_boot double_press) held_low = [] \<and>
   length (presses (polled s_boot double_press) held_low) \<noteq> 1"
  by code_simp

end
